theory Spec2Isabelle
  imports Complex_Main "HOL-Library.Word" "HOL-Library.AList" "HOL-Library.Product_Lexorder"
    "HOL-Library.Multiset"
begin

unbundle bit_operations_syntax

section \<open>Conventions of the embedding\<close>

text \<open>
  The systems are TypeScript classes over bitecs-style component stores. The embedding
  follows the source line by line, with these conventions.
  \<^item> An entity id is a natural number. A component store (\<open>X.get(e)\<close>) is a total function
    from entity ids to the component record, as the stores are dense arrays indexed by id.
  \<^item> \<open>Types.ui8\<close>, \<open>Types.ui16\<close> and \<open>Types.ui32\<close> fields are words of that width, so that
    \<open>++\<close> on a counter wraps as a typed array does.
  \<^item> \<open>Types.f32\<close> fields and JavaScript numbers holding fractions are modelled as real
    numbers: finite values, no rounding, no NaN. A comparison of the source is the
    comparison of the exact values, which is the source's own as long as rounding does not
    carry a value across the bound compared with. It can do so when two strengths differ
    by the threshold 0.3 up to rounding (the double written \<open>0.3\<close> lies just below 0.3):
    nothing below is claimed of the source at such strengths, and the states at which
    \<open>resolveConflicts\<close> is evaluated hold strengths that doubles represent exactly, with
    differences 0 or 3.
  \<^item> A JavaScript \<open>Map\<close> is an association list with distinct keys in insertion order
    (\<open>AList.update\<close> overwrites in place or appends, \<open>AList.delete\<close> removes), since the
    source iterates over its maps.
  \<^item> The string key \<open>`${a}_${b}`\<close> built from two numbers is an injective encoding of the
    pair \<open>(a, b)\<close>, and \<open>key.split('_').map(Number)\<close> decodes it; the key is modelled as
    the pair itself.
  \<^item> Methods that a class calls but that no file of the repository defines are parameters
    of the model, or are modelled from the specification where a claim needs their
    effect; each such place says so.
\<close>

type_synonym entity = nat
type_synonym ui8 = "8 word"
type_synonym ui16 = "16 word"
type_synonym ui32 = "32 word"

text \<open>
  \<open>1 << i\<close> in JavaScript: the shift count is taken modulo 32 and the result is a 32-bit
  integer.
\<close>

definition shl1 :: "nat \<Rightarrow> ui32" where
  "shl1 i = push_bit (i mod 32) 1"

datatype error = TypeError string

section \<open>TerritorySystem.ts\<close>

subsection \<open>Components and state\<close>

record TerritoryControl =
  territories :: ui32
  protection :: "ui8 list"
  income :: "ui16 list"
  enforcers :: ui32
  rivals :: ui32
  stability :: "real list"

record WarfareState =
  activeConflicts :: ui32
  warStrength :: real
  allies :: ui32
  casualties :: ui16
  victories :: ui16
  reputation :: real

text \<open>The value stored in \<open>conflictCache\<close> by \<open>registerConflict\<close>.\<close>

record PendingConflict =
  territory :: nat
  startTime :: int
  lastUpdate :: int

type_synonym conflictKey = "entity \<times> entity"

text \<open>
  The state the class reads and writes: \<open>world.time\<close> (record \<open>World\<close>), the result of
  the \<open>gangsters\<close> query (the entities that currently exist with the three components, in
  query order), the two component stores, the 16-cell \<open>territoryGrid\<close> (\<open>None\<close> is
  \<open>null\<close>) and the \<open>conflictCache\<close> map.
\<close>

record World =
  time :: int

record TerritorySystem = World +
  gangsters :: "entity list"
  territoryControl :: "entity \<Rightarrow> TerritoryControl"
  warfareState :: "entity \<Rightarrow> WarfareState"
  territoryGrid :: "entity option list"
  conflictCache :: "(conflictKey \<times> PendingConflict) list"

definition TERRITORY_GRID :: nat where
  "TERRITORY_GRID = 16"

definition MIN_STRENGTH :: real where
  "MIN_STRENGTH = 0.3"

text \<open>Writing through a component handle: the store changes at that entity.\<close>

definition modTerritory ::
  "entity \<Rightarrow> (TerritoryControl \<Rightarrow> TerritoryControl) \<Rightarrow> TerritorySystem \<Rightarrow> TerritorySystem" where
  "modTerritory g f w = w\<lparr>territoryControl := (territoryControl w)(g := f (territoryControl w g))\<rparr>"

definition modWarfare ::
  "entity \<Rightarrow> (WarfareState \<Rightarrow> WarfareState) \<Rightarrow> TerritorySystem \<Rightarrow> TerritorySystem" where
  "modWarfare g f w = w\<lparr>warfareState := (warfareState w)(g := f (warfareState w g))\<rparr>"

text \<open>\<open>if (x)\<close> on a grid cell: \<open>null\<close> is falsy, and so is the number 0.\<close>

fun truthy :: "entity option \<Rightarrow> bool" where
  "truthy None = False"
| "truthy (Some e) = (e \<noteq> 0)"

subsection \<open>registerConflict and updateTerritories\<close>

definition conflictKey :: "entity \<Rightarrow> entity \<Rightarrow> conflictKey" where
  "conflictKey gang1 gang2 = (min gang1 gang2, max gang1 gang2)"

definition registerConflict :: "entity \<Rightarrow> entity \<Rightarrow> nat \<Rightarrow> TerritorySystem \<Rightarrow> TerritorySystem" where
  "registerConflict gang1 gang2 territoryId w =
     (if map_of (conflictCache w) (conflictKey gang1 gang2) = None then
        (let w1 = modWarfare gang1
                    (\<lambda>s. s\<lparr>activeConflicts := activeConflicts s OR shl1 territoryId\<rparr>) w;
             w2 = modWarfare gang2
                    (\<lambda>s. s\<lparr>activeConflicts := activeConflicts s OR shl1 territoryId\<rparr>) w1
         in w2\<lparr>conflictCache :=
                 AList.update (conflictKey gang1 gang2)
                   \<lparr>territory = territoryId, startTime = time w2, lastUpdate = time w2\<rparr>
                   (conflictCache w2)\<rparr>)
      else w)"

text \<open>The body of the inner loop of \<open>updateTerritories\<close>, for gangster \<open>g\<close> at cell \<open>i\<close>.\<close>

definition claimCell :: "entity \<Rightarrow> TerritorySystem \<Rightarrow> nat \<Rightarrow> TerritorySystem" where
  "claimCell g w i =
     (if territories (territoryControl w g) AND shl1 i \<noteq> 0 then
        (if truthy (territoryGrid w ! i)
         then registerConflict g (the (territoryGrid w ! i)) i w
         else w\<lparr>territoryGrid := (territoryGrid w)[i := Some g]\<rparr>)
      else w)"

definition claimCells :: "TerritorySystem \<Rightarrow> entity \<Rightarrow> TerritorySystem" where
  "claimCells w g = foldl (claimCell g) w [0..<TERRITORY_GRID]"

definition updateTerritories :: "TerritorySystem \<Rightarrow> TerritorySystem" where
  "updateTerritories w =
     foldl claimCells (w\<lparr>territoryGrid := replicate TERRITORY_GRID None\<rparr>) (gangsters w)"

subsection \<open>calculateWarStrength\<close>

text \<open>
  The ally loop \<open>while (allyMask) { if (allyMask & 1) ...; allyMask >>= 1; allyCount++ }\<close>.
  \<open>allyMask\<close> starts as the unsigned 32-bit field; \<open>>>=\<close> is the sign-propagating shift
  on the 32-bit two's complement reading, so a mask with bit 31 set never reaches 0 and the
  loop does not end: the loop is a partial function, \<open>None\<close> standing for no result.
  \<open>getAllyContribution\<close> is called but defined nowhere in the repository: it is the
  parameter \<open>contrib\<close> (already applied to the gangster).
\<close>

partial_function (option) allyLoop ::
  "(nat \<Rightarrow> real) \<Rightarrow> ui32 \<Rightarrow> nat \<Rightarrow> real \<Rightarrow> real option" where
  "allyLoop contrib allyMask allyCount strength =
     (if allyMask = 0 then Some strength
      else allyLoop contrib (signed_drop_bit 1 allyMask) (allyCount + 1)
             (if allyMask AND 1 \<noteq> 0 then strength + contrib allyCount else strength))"

definition calculateWarStrength ::
  "(entity \<Rightarrow> nat \<Rightarrow> real) \<Rightarrow> TerritorySystem \<Rightarrow> entity \<Rightarrow> real option" where
  "calculateWarStrength getAllyContribution w gangster =
     (let warfare = warfareState w gangster;
          territory = territoryControl w gangster
      in case allyLoop (getAllyContribution gangster) (allies warfare) 0 (warStrength warfare) of
           None \<Rightarrow> None
         | Some strength \<Rightarrow>
             (let controlBonus = foldl (\<lambda>sum s. sum + s) 0 (stability territory) / 16
              in Some (strength * (1 + controlBonus) * (1 + reputation warfare * 0.2))))"

subsection \<open>resolveTerrritorialDispute and updateWarReputation\<close>

definition updateWarReputation :: "entity \<Rightarrow> bool \<Rightarrow> TerritorySystem \<Rightarrow> TerritorySystem" where
  "updateWarReputation gangster victory w =
     modWarfare gangster
       (\<lambda>s. if victory then s\<lparr>reputation := min 1 (reputation s + 0.1)\<rparr>
             else s\<lparr>reputation := reputation s * 0.8\<rparr>) w"

text \<open>The method the class declares at line 168, under the name it is declared with.\<close>

definition resolveTerrritorialDispute ::
  "entity \<Rightarrow> entity \<Rightarrow> nat \<Rightarrow> entity \<Rightarrow> TerritorySystem \<Rightarrow> TerritorySystem" where
  "resolveTerrritorialDispute gang1 gang2 territoryId winner w =
     (let w1 = (if winner = gang1 then
                  (modWarfare gang2 (\<lambda>s. s\<lparr>casualties := casualties s + 1\<rparr>)
                  (modWarfare gang1 (\<lambda>s. s\<lparr>victories := victories s + 1\<rparr>)
                  (modTerritory gang1 (\<lambda>t. t\<lparr>territories := territories t OR shl1 territoryId\<rparr>)
                  (modTerritory gang2 (\<lambda>t. t\<lparr>territories := territories t AND NOT (shl1 territoryId)\<rparr>)
                   w))))
                else
                  (modWarfare gang1 (\<lambda>s. s\<lparr>casualties := casualties s + 1\<rparr>)
                  (modWarfare gang2 (\<lambda>s. s\<lparr>victories := victories s + 1\<rparr>)
                  (modTerritory gang2 (\<lambda>t. t\<lparr>territories := territories t OR shl1 territoryId\<rparr>)
                  (modTerritory gang1 (\<lambda>t. t\<lparr>territories := territories t AND NOT (shl1 territoryId)\<rparr>)
                   w)))));
          w2 = updateWarReputation gang1 (winner = gang1) w1;
          w3 = updateWarReputation gang2 (winner = gang2) w2;
          w4 = modWarfare gang1
                 (\<lambda>s. s\<lparr>activeConflicts := activeConflicts s AND NOT (shl1 territoryId)\<rparr>) w3
      in modWarfare gang2
           (\<lambda>s. s\<lparr>activeConflicts := activeConflicts s AND NOT (shl1 territoryId)\<rparr>) w4)"

subsection \<open>resolveConflicts\<close>

text \<open>
  Line 124 calls \<open>this.resolveTerritorialDispute\<close>. Unlike \<open>handleStalemate\<close> and
  \<open>getAllyContribution\<close>, which the repository leaves undefined, the method this call
  means is in the class, at line 168, but under the name \<open>resolveTerrritorialDispute\<close>.
  As written, the call looks up a property the object does not have: the callee is
  \<open>undefined\<close> and the call throws a TypeError once its arguments are evaluated.
\<close>

definition resolveTerritorialDispute ::
  "entity \<Rightarrow> entity \<Rightarrow> nat \<Rightarrow> entity \<Rightarrow> TerritorySystem \<Rightarrow> error + TerritorySystem" where
  "resolveTerritorialDispute gang1 gang2 territoryId winner w =
     Inl (TypeError ''this.resolveTerritorialDispute is not a function'')"

text \<open>
  Modelled from the spec: \<open>handleStalemate\<close> is called at line 133 and defined nowhere in
  the repository. The specification says of a stalemate that "both parties absorb a
  casualty-equivalent cost": each party's casualty counter goes up by one.
\<close>

definition handleStalemate :: "entity \<Rightarrow> entity \<Rightarrow> TerritorySystem \<Rightarrow> TerritorySystem" where
  "handleStalemate gang1 gang2 w =
     modWarfare gang2 (\<lambda>s. s\<lparr>casualties := casualties s + 1\<rparr>)
       (modWarfare gang1 (\<lambda>s. s\<lparr>casualties := casualties s + 1\<rparr>) w)"

text \<open>
  The body of the \<open>for (const [key, conflict] of this.conflictCache)\<close> loop, for one
  entry. The result is \<open>None\<close> when a strength computation does not return, \<open>Some (Inl e)\<close>
  when the body throws, and \<open>Some (Inr w')\<close> with the state after the body otherwise.
\<close>

definition resolveConflict ::
  "(entity \<Rightarrow> nat \<Rightarrow> real) \<Rightarrow> conflictKey \<times> PendingConflict \<Rightarrow> TerritorySystem
     \<Rightarrow> (error + TerritorySystem) option" where
  "resolveConflict getAllyContribution entry w =
     (let key = fst entry; conflict = snd entry in
      if time w - lastUpdate conflict > 100 then
        (let gang1 = fst key; gang2 = snd key in
         case calculateWarStrength getAllyContribution w gang1 of
           None \<Rightarrow> None
         | Some strength1 \<Rightarrow>
             (case calculateWarStrength getAllyContribution w gang2 of
                None \<Rightarrow> None
              | Some strength2 \<Rightarrow>
                  if \<bar>strength1 - strength2\<bar> > MIN_STRENGTH then
                    (case resolveTerritorialDispute gang1 gang2 (territory conflict)
                            (if strength1 > strength2 then gang1 else gang2) w of
                       Inl e \<Rightarrow> Some (Inl e)
                     | Inr w1 \<Rightarrow>
                         Some (Inr (w1\<lparr>conflictCache := AList.delete key (conflictCache w1)\<rparr>)))
                  else
                    (let w1 = handleStalemate gang1 gang2 w
                     in Some (Inr (w1\<lparr>conflictCache :=
                                       AList.update key (conflict\<lparr>lastUpdate := time w1\<rparr>)
                                         (conflictCache w1)\<rparr>)))))
      else Some (Inr w))"

text \<open>
  The loop visits the entries in insertion order. An iteration changes or deletes only
  its own entry, so the entries still to come are the ones the map held at the start.
\<close>

fun resolveLoop ::
  "(entity \<Rightarrow> nat \<Rightarrow> real) \<Rightarrow> (conflictKey \<times> PendingConflict) list \<Rightarrow> TerritorySystem
     \<Rightarrow> (error + TerritorySystem) option" where
  "resolveLoop getAllyContribution [] w = Some (Inr w)"
| "resolveLoop getAllyContribution (entry # entries) w =
     (case resolveConflict getAllyContribution entry w of
        None \<Rightarrow> None
      | Some (Inl e) \<Rightarrow> Some (Inl e)
      | Some (Inr w1) \<Rightarrow> resolveLoop getAllyContribution entries w1)"

definition resolveConflicts ::
  "(entity \<Rightarrow> nat \<Rightarrow> real) \<Rightarrow> TerritorySystem \<Rightarrow> (error + TerritorySystem) option" where
  "resolveConflicts getAllyContribution w = resolveLoop getAllyContribution (conflictCache w) w"

section \<open>The conspiracy system (power structures, succession, status cache)\<close>

subsection \<open>Components and state\<close>

record ConspiracyState =
  membershipFlags :: ui32
  rank :: "ui8 list"
  knownMembers :: ui32
  secretGoals :: "ui8 list"
  publicGoals :: "ui8 list"
  trustNetwork :: ui32

text \<open>
  The field \<open>rivals\<close> of the source is \<open>powerRivals\<close> here, since \<open>TerritoryControl\<close>
  has a field of the same name.
\<close>

record PowerStructure =
  leaderPosition :: ui8
  succession :: "entity list"
  supporters :: ui32
  powerRivals :: ui32
  powerBase :: real
  stabilityFactor :: real

text \<open>
  A cache entry: \<open>{status, timestamp}\<close> in \<open>conspiracyCache\<close> and \<open>{market, timestamp}\<close>
  in \<open>discoveryCache\<close>; the value field is \<open>cached\<close> for both.
\<close>

record 'v CacheEntry =
  cached :: 'v
  timestamp :: int

text \<open>
  \<open>statusCalls\<close> is not a field of the class: it counts the calls of
  \<open>calculateConspiracyStatus\<close> made so far, so that "invoked once" can be stated.
\<close>

record 's ConspiracySystem = World +
  conspiracyState :: "entity \<Rightarrow> ConspiracyState"
  powerStructure :: "entity \<Rightarrow> PowerStructure"
  conspiracyCache :: "((entity \<times> ui32) \<times> 's CacheEntry) list"
  statusCalls :: nat

record vacuum =
  position :: ui8
  agent :: entity
  severity :: real

text \<open>The candidate objects \<open>{agent, power, support}\<close> of \<open>findViableSuccessors\<close>.\<close>

record candidate =
  candAgent :: entity
  candPower :: PowerStructure
  support :: real

text \<open>The faction objects \<open>{leader, supporters}\<close> that \<open>divideSupporters\<close> returns.\<close>

record faction =
  leader :: entity
  factionSupporters :: "entity list"

text \<open>
  The methods that the class calls and that no file of the repository defines, as
  parameters. Each may read the state; the two that can only be meant to change it
  (\<open>forceConspiracyRealignment\<close>, \<open>allocateConspiracyBit\<close>) return the new state.
  \<open>SEIZE_POWER\<close> and \<open>RESTORE_STABILITY\<close> are the two members of \<open>this.GOALS\<close>.
\<close>

record 's ConspiracyMethods =
  isViableSuccessor :: "'s ConspiracySystem \<Rightarrow> entity \<Rightarrow> PowerStructure \<Rightarrow> vacuum \<Rightarrow> bool"
  isViableClaimant :: "'s ConspiracySystem \<Rightarrow> entity \<Rightarrow> PowerStructure \<Rightarrow> vacuum \<Rightarrow> bool"
  calculateSupport :: "'s ConspiracySystem \<Rightarrow> entity \<Rightarrow> entity list \<Rightarrow> real"
  findAffectedAgents :: "'s ConspiracySystem \<Rightarrow> vacuum \<Rightarrow> entity list \<Rightarrow> entity list"
  forceConspiracyRealignment :: "entity \<Rightarrow> 's ConspiracySystem \<Rightarrow> 's ConspiracySystem"
  divideSupporters :: "'s ConspiracySystem \<Rightarrow> vacuum \<Rightarrow> candidate list \<Rightarrow> faction list"
  allocateConspiracyBit :: "'s ConspiracySystem \<Rightarrow> nat \<times> 's ConspiracySystem"
  SEIZE_POWER :: ui8
  RESTORE_STABILITY :: ui8
  calculateConspiracyStatus ::
    "'s ConspiracySystem \<Rightarrow> entity \<Rightarrow> ConspiracyState \<Rightarrow> PowerStructure \<Rightarrow> 's"

definition modPower ::
  "entity \<Rightarrow> (PowerStructure \<Rightarrow> PowerStructure) \<Rightarrow> 's ConspiracySystem \<Rightarrow> 's ConspiracySystem" where
  "modPower a f w = w\<lparr>powerStructure := (powerStructure w)(a := f (powerStructure w a))\<rparr>"

definition modConspiracy ::
  "entity \<Rightarrow> (ConspiracyState \<Rightarrow> ConspiracyState) \<Rightarrow> 's ConspiracySystem \<Rightarrow> 's ConspiracySystem" where
  "modConspiracy a f w = w\<lparr>conspiracyState := (conspiracyState w)(a := f (conspiracyState w a))\<rparr>"

subsection \<open>detectPowerVacuums and findViableSuccessors\<close>

definition detectPowerVacuums :: "'s ConspiracySystem \<Rightarrow> entity list \<Rightarrow> vacuum list" where
  "detectPowerVacuums w agents =
     map (\<lambda>a. \<lparr>position = leaderPosition (powerStructure w a), agent = a,
               severity = 1 - stabilityFactor (powerStructure w a)\<rparr>)
       (filter (\<lambda>a. leaderPosition (powerStructure w a) > 0
                   \<and> stabilityFactor (powerStructure w a) < 0.2) agents)"

text \<open>The two loops of \<open>findViableSuccessors\<close>, each pushing onto \<open>candidates\<close> in order.\<close>

definition designatedCandidates ::
  "'s ConspiracyMethods \<Rightarrow> 's ConspiracySystem \<Rightarrow> vacuum \<Rightarrow> entity list \<Rightarrow> candidate list" where
  "designatedCandidates m w v agents =
     map (\<lambda>successor. \<lparr>candAgent = successor, candPower = powerStructure w successor,
                        support = calculateSupport m w successor agents\<rparr>)
       (filter (\<lambda>successor. successor \<noteq> 0
                  \<and> isViableSuccessor m w successor (powerStructure w successor) v)
          (succession (powerStructure w (agent v))))"

definition claimantCandidates ::
  "'s ConspiracyMethods \<Rightarrow> 's ConspiracySystem \<Rightarrow> vacuum \<Rightarrow> entity list \<Rightarrow> candidate list" where
  "claimantCandidates m w v agents =
     map (\<lambda>a. \<lparr>candAgent = a, candPower = powerStructure w a,
               support = calculateSupport m w a agents\<rparr>)
       (filter (\<lambda>a. a \<notin> set (succession (powerStructure w (agent v)))
                  \<and> isViableClaimant m w a (powerStructure w a) v)
          agents)"

text \<open>
  \<open>candidates.sort((a, b) => b.support - a.support)\<close>: \<open>Array.prototype.sort\<close> is a
  stable sort, here by descending support, which is \<open>sort_key\<close> on the negated support.
\<close>

definition findViableSuccessors ::
  "'s ConspiracyMethods \<Rightarrow> 's ConspiracySystem \<Rightarrow> vacuum \<Rightarrow> entity list \<Rightarrow> candidate list" where
  "findViableSuccessors m w v agents =
     sort_key (\<lambda>c. - support c) (designatedCandidates m w v agents @ claimantCandidates m w v agents)"

subsection \<open>initiateSuccessionCrisis, handlePowerCollapse and handlePowerVacuums\<close>

definition markFaction :: "'s ConspiracyMethods \<Rightarrow> 's ConspiracySystem \<Rightarrow> faction \<Rightarrow> 's ConspiracySystem" where
  "markFaction m w f =
     (let (conspiracyBit, w1) = allocateConspiracyBit m w;
          w2 = modConspiracy (leader f)
                 (\<lambda>c. c\<lparr>membershipFlags := membershipFlags c OR shl1 conspiracyBit\<rparr>) w1;
          w3 = modConspiracy (leader f) (\<lambda>c. c\<lparr>secretGoals := (secretGoals c)[0 := SEIZE_POWER m]\<rparr>) w2;
          w4 = modConspiracy (leader f)
                 (\<lambda>c. c\<lparr>publicGoals := (publicGoals c)[0 := RESTORE_STABILITY m]\<rparr>) w3
      in foldl (\<lambda>w' supporter.
                  modConspiracy supporter
                    (\<lambda>c. c\<lparr>membershipFlags := membershipFlags c OR shl1 conspiracyBit\<rparr>) w')
           w4 (factionSupporters f))"

definition initiateSuccessionCrisis ::
  "'s ConspiracyMethods \<Rightarrow> vacuum \<Rightarrow> candidate list \<Rightarrow> 's ConspiracySystem \<Rightarrow> 's ConspiracySystem" where
  "initiateSuccessionCrisis m v successors w =
     foldl (markFaction m) w (divideSupporters m w v successors)"

text \<open>
  The body of the loop of \<open>handlePowerCollapse\<close>. \<open>leaderPosition\<close> is an unsigned byte:
  \<open>Math.max(0, power.leaderPosition - 1)\<close> is computed on numbers and stored back.
\<close>

definition collapseAgent :: "'s ConspiracyMethods \<Rightarrow> 's ConspiracySystem \<Rightarrow> entity \<Rightarrow> 's ConspiracySystem" where
  "collapseAgent m w a =
     (let w1 = modPower a
                 (\<lambda>p. p\<lparr>leaderPosition := word_of_int (max 0 (uint (leaderPosition p) - 1))\<rparr>) w;
          w2 = modPower a (\<lambda>p. p\<lparr>stabilityFactor := stabilityFactor p * 0.5\<rparr>) w1
      in forceConspiracyRealignment m a w2)"

definition handlePowerCollapse ::
  "'s ConspiracyMethods \<Rightarrow> vacuum \<Rightarrow> entity list \<Rightarrow> 's ConspiracySystem \<Rightarrow> 's ConspiracySystem" where
  "handlePowerCollapse m v agents w = foldl (collapseAgent m) w (findAffectedAgents m w v agents)"

text \<open>The body of the loop of \<open>handlePowerVacuums\<close>, for one vacuum.\<close>

definition handleVacuum ::
  "'s ConspiracyMethods \<Rightarrow> entity list \<Rightarrow> 's ConspiracySystem \<Rightarrow> vacuum \<Rightarrow> 's ConspiracySystem" where
  "handleVacuum m agents w v =
     (let successors = findViableSuccessors m w v agents
      in if length successors > 0 then initiateSuccessionCrisis m v successors w
         else handlePowerCollapse m v agents w)"

text \<open>
  \<open>vacuums.sort((a, b) => b.severity - a.severity || b.position - a.position)\<close>: a stable
  sort by descending severity, then descending position.
\<close>

definition handlePowerVacuums ::
  "'s ConspiracyMethods \<Rightarrow> vacuum list \<Rightarrow> entity list \<Rightarrow> 's ConspiracySystem \<Rightarrow> 's ConspiracySystem" where
  "handlePowerVacuums m vacuums agents w =
     foldl (handleVacuum m agents) w
       (sort_key (\<lambda>v. (- severity v, - uint (position v))) vacuums)"

subsection \<open>updateConspiracyStatus\<close>

text \<open>The parameter \<open>power\<close> of the source is \<open>pow\<close> here.\<close>

definition updateConspiracyStatus ::
  "'s ConspiracyMethods \<Rightarrow> entity \<Rightarrow> ConspiracyState \<Rightarrow> PowerStructure \<Rightarrow> 's ConspiracySystem
     \<Rightarrow> 's \<times> 's ConspiracySystem" where
  "updateConspiracyStatus m a conspiracy pow w =
     (let cacheKey = (a, membershipFlags conspiracy);
          hit = (case map_of (conspiracyCache w) cacheKey of
                   None \<Rightarrow> None
                 | Some e \<Rightarrow> if timestamp e > time w - 100 then Some (cached e) else None)
      in case hit of
           Some s \<Rightarrow> (s, w)
         | None \<Rightarrow>
             (let status = calculateConspiracyStatus m w a conspiracy pow
              in (status,
                  w\<lparr>conspiracyCache :=
                      AList.update cacheKey \<lparr>cached = status, timestamp = time w\<rparr> (conspiracyCache w),
                    statusCalls := statusCalls w + 1\<rparr>)))"

section \<open>The underground system: findSuitableMarket\<close>

text \<open>
  The component of the operator; its field \<open>reputation\<close> is \<open>undergroundReputation\<close>
  here, since \<open>WarfareState\<close> has a field of the same name.
\<close>

record UndergroundEconomy =
  marketAccess :: ui32
  contraband :: "ui16 list"
  contacts :: ui32
  undergroundReputation :: real
  heatLevel :: real
  fronts :: "ui8 list"

text \<open>
  Of the state of the class, the fields \<open>findSuitableMarket\<close> touches: \<open>world.time\<close>, the
  \<open>activeMarkets\<close> set in insertion order and the \<open>discoveryCache\<close> map. \<open>searches\<close> is
  not a field of the class: it counts how often the market search below the cache check
  has run.
\<close>

record UndergroundSystem = World +
  activeMarkets :: "nat list"
  discoveryCache :: "((entity \<times> ui32) \<times> nat option CacheEntry) list"
  searches :: nat

text \<open>
  The search loop over \<open>activeMarkets\<close>, on the pair \<open>(bestMarket, bestScore)\<close>.
  \<open>evaluateMarketSuitability\<close> is defined nowhere in the repository: a parameter.
\<close>

definition searchMarkets ::
  "(nat \<Rightarrow> entity \<Rightarrow> real) \<Rightarrow> entity \<Rightarrow> UndergroundEconomy \<Rightarrow> nat list
     \<Rightarrow> nat option \<times> real" where
  "searchMarkets evaluateMarketSuitability operator underground markets =
     foldl (\<lambda>(bestMarket, bestScore) marketId.
              if marketAccess underground AND shl1 marketId \<noteq> 0 then
                (let score = evaluateMarketSuitability marketId operator
                 in if score > bestScore then (Some marketId, score) else (bestMarket, bestScore))
              else (bestMarket, bestScore))
       (None, 0) markets"

definition findSuitableMarket ::
  "(nat \<Rightarrow> entity \<Rightarrow> real) \<Rightarrow> entity \<Rightarrow> UndergroundEconomy \<Rightarrow> UndergroundSystem
     \<Rightarrow> nat option \<times> UndergroundSystem" where
  "findSuitableMarket evaluateMarketSuitability operator underground w =
     (let cacheKey = (operator, marketAccess underground);
          hit = (case map_of (discoveryCache w) cacheKey of
                   None \<Rightarrow> None
                 | Some e \<Rightarrow> if timestamp e > time w - 100 then Some (cached e) else None)
      in case hit of
           Some bestMarket \<Rightarrow> (bestMarket, w)
         | None \<Rightarrow>
             (let bestMarket = fst (searchMarkets evaluateMarketSuitability operator underground
                                      (activeMarkets w))
              in (bestMarket,
                  w\<lparr>discoveryCache :=
                      AList.update cacheKey \<lparr>cached = bestMarket, timestamp = time w\<rparr> (discoveryCache w),
                    searches := searches w + 1\<rparr>)))"

section \<open>Vocabulary for conflict detection\<close>

text \<open>
  \<open>claims w g i\<close> is the test of line 79, \<open>territory.territories & (1 << i)\<close>; the first
  claimant of a slot is the first gangster in query order that claims it; the first common
  slot of two gangsters is the lowest grid cell both claim.
\<close>

definition claims :: "TerritorySystem \<Rightarrow> entity \<Rightarrow> nat \<Rightarrow> bool" where
  "claims w g i = (territories (territoryControl w g) AND shl1 i \<noteq> 0)"

definition firstClaimant :: "TerritorySystem \<Rightarrow> nat \<Rightarrow> entity option" where
  "firstClaimant w i = find (\<lambda>g. claims w g i) (gangsters w)"

definition firstCommonSlot :: "TerritorySystem \<Rightarrow> entity \<Rightarrow> entity \<Rightarrow> nat option" where
  "firstCommonSlot w a b = find (\<lambda>i. claims w a i \<and> claims w b i) [0..<TERRITORY_GRID]"

text \<open>
  The invariant of the two loops of \<open>updateTerritories\<close>, from the state \<open>w0\<close> after the
  grid is cleared to the current state \<open>w\<close>, where \<open>seen i\<close> lists the gangsters whose claim
  on cell \<open>i\<close> has been processed. It speaks of a cell only while the first claimant seen
  is not entity 0, the id that the test of line 80 reads as an empty cell: such a cell
  holds the first claimant seen, every entry of the cache was there before or records a
  slot and joins a later claimant of that slot with its first claimant, and every such
  pair has an entry.
\<close>

definition joinsFirst ::
  "TerritorySystem \<Rightarrow> (nat \<Rightarrow> entity list) \<Rightarrow> conflictKey \<Rightarrow> PendingConflict \<Rightarrow> bool" where
  "joinsFirst w0 seen key c =
     (territory c < TERRITORY_GRID
      \<and> (find (\<lambda>x. claims w0 x (territory c)) (seen (territory c)) = Some 0
         \<or> (\<exists>f g. find (\<lambda>x. claims w0 x (territory c)) (seen (territory c)) = Some f
                  \<and> g \<in> set (seen (territory c)) \<and> g \<noteq> f
                  \<and> claims w0 g (territory c) \<and> key = conflictKey g f)))"

definition detectionInvariant ::
  "TerritorySystem \<Rightarrow> (nat \<Rightarrow> entity list) \<Rightarrow> TerritorySystem \<Rightarrow> bool" where
  "detectionInvariant w0 seen w =
     (territoryControl w = territoryControl w0 \<and> time w = time w0
      \<and> gangsters w = gangsters w0
      \<and> length (territoryGrid w) = TERRITORY_GRID
      \<and> (\<forall>i < TERRITORY_GRID. find (\<lambda>x. claims w0 x i) (seen i) \<noteq> Some 0 \<longrightarrow>
             territoryGrid w ! i = find (\<lambda>x. claims w0 x i) (seen i))
      \<and> (\<forall>key c. map_of (conflictCache w) key = Some c \<longrightarrow>
             map_of (conflictCache w0) key = Some c \<or> joinsFirst w0 seen key c)
      \<and> (\<forall>i < TERRITORY_GRID. \<forall>f g.
             find (\<lambda>x. claims w0 x i) (seen i) = Some f \<and> f \<noteq> 0 \<and> g \<in> set (seen i)
               \<and> g \<noteq> f \<and> claims w0 g i
             \<longrightarrow> map_of (conflictCache w) (conflictKey g f) \<noteq> None)
      \<and> (\<forall>key c. map_of (conflictCache w0) key = Some c \<longrightarrow> map_of (conflictCache w) key = Some c))"

section \<open>The strength formula as the specification words it\<close>

text \<open>
  The specification's strength: base capability times (1 + the sum of the ally
  contributions) times (1 + the average control-stability over the slots the party holds)
  times (1 + reputation times k), with the source's \<open>k = 0.2\<close>. It is compared below with
  \<open>calculateWarStrength\<close>.
\<close>

definition heldSlots :: "TerritoryControl \<Rightarrow> nat list" where
  "heldSlots t = filter (\<lambda>i. bit (territories t) i) [0..<16]"

definition averageHeldStability :: "TerritoryControl \<Rightarrow> real" where
  "averageHeldStability t =
     (if heldSlots t = [] then 0
      else sum_list (map (\<lambda>i. stability t ! i) (heldSlots t)) / real (length (heldSlots t)))"

definition specStrength :: "(entity \<Rightarrow> nat \<Rightarrow> real) \<Rightarrow> TerritorySystem \<Rightarrow> entity \<Rightarrow> real" where
  "specStrength getAllyContribution w gangster =
     warStrength (warfareState w gangster)
       * (1 + sum_list (map (getAllyContribution gangster)
                          (filter (\<lambda>i. bit (allies (warfareState w gangster)) i) [0..<32])))
       * (1 + averageHeldStability (territoryControl w gangster))
       * (1 + reputation (warfareState w gangster) * 0.2)"

section \<open>The order of candidates as the specification words it\<close>

text \<open>
  "Rank descending by support; ties break by lowest entity id": of two candidates the
  earlier has the larger support, or the same support and the smaller id.
\<close>

definition specCandidateOrder :: "candidate list \<Rightarrow> bool" where
  "specCandidateOrder cs =
     sorted_wrt (\<lambda>c d. support c > support d \<or> (support c = support d \<and> candAgent c \<le> candAgent d)) cs"

section \<open>Vocabulary for the caches and for the power collapse\<close>

text \<open>
  A lookup at tick \<open>now\<close> finds no usable entry for key \<open>k\<close>: the key is absent, or the
  age \<open>now - timestamp\<close> of its entry is at least the 100 ticks both caches use.
\<close>

definition staleOrAbsent :: "('k \<times> 'v CacheEntry) list \<Rightarrow> 'k \<Rightarrow> int \<Rightarrow> bool" where
  "staleOrAbsent cache k now =
     (case map_of cache k of None \<Rightarrow> True | Some e \<Rightarrow> now - timestamp e \<ge> 100)"

text \<open>
  What the theorem on \<open>handlePowerCollapse\<close> needs of the undefined
  \<open>forceConspiracyRealignment\<close>: it leaves every agent's rank and stability factor as
  they are.
\<close>

definition keepsRanks :: "'s ConspiracyMethods \<Rightarrow> bool" where
  "keepsRanks m =
     (\<forall>a w b. leaderPosition (powerStructure (forceConspiracyRealignment m a w) b)
                 = leaderPosition (powerStructure w b)
             \<and> stabilityFactor (powerStructure (forceConspiracyRealignment m a w) b)
                 = stabilityFactor (powerStructure w b))"

section \<open>Example states of the territory system\<close>

definition noAllyContribution :: "entity \<Rightarrow> nat \<Rightarrow> real" where
  "noAllyContribution gangster ally = 0"

definition unitAllyContribution :: "entity \<Rightarrow> nat \<Rightarrow> real" where
  "unitAllyContribution gangster ally = 1"

definition plainTerritory :: TerritoryControl where
  "plainTerritory =
     \<lparr>territories = 0, protection = replicate 16 0, income = replicate 16 0, enforcers = 0,
      rivals = 0,
      stability = [0, 0, 0, 0, 0, 0, 0, 0, 0, 0, 0, 0, 0, 0, 0, 0]\<rparr>"

definition plainWarfare :: WarfareState where
  "plainWarfare =
     \<lparr>activeConflicts = 0, warStrength = 1, allies = 0, casualties = 0, victories = 0,
      reputation = 0\<rparr>"

text \<open>
  Gangs 1 and 2 both hold slot 3 and have a conflict on it pending since tick 0; it is
  tick 101. Gang 1 has base strength \<open>s1\<close>, every other entity \<open>s2\<close>; \<open>gs\<close> is the result
  of the \<open>gangsters\<close> query.
\<close>

definition duel :: "real \<Rightarrow> real \<Rightarrow> entity list \<Rightarrow> TerritorySystem" where
  "duel s1 s2 gs =
     \<lparr>time = 101, gangsters = gs,
      territoryControl = (\<lambda>g. plainTerritory\<lparr>territories := 8\<rparr>),
      warfareState = (\<lambda>g. plainWarfare\<lparr>activeConflicts := 8, warStrength := (if g = 1 then s1 else s2)\<rparr>),
      territoryGrid = replicate 16 None,
      conflictCache = [((1, 2), \<lparr>territory = 3, startTime = 0, lastUpdate = 0\<rparr>)]\<rparr>"

text \<open>
  Two pending conflicts since tick 0, at tick 101: gangs 1 and 2 on slot 3, with base
  strengths 10 and 7, then gangs 3 and 4 on slot 5, both with base strength 1.
\<close>

definition twoWars :: TerritorySystem where
  "twoWars =
     \<lparr>time = 101, gangsters = [1, 2, 3, 4],
      territoryControl = (\<lambda>g. plainTerritory\<lparr>territories := (if g = 1 \<or> g = 2 then 8 else 32)\<rparr>),
      warfareState = (\<lambda>g. plainWarfare\<lparr>activeConflicts := (if g = 1 \<or> g = 2 then 8 else 32),
                                        warStrength := (if g = 1 then 10 else if g = 2 then 7 else 1)\<rparr>),
      territoryGrid = replicate 16 None,
      conflictCache = [((1, 2), \<lparr>territory = 3, startTime = 0, lastUpdate = 0\<rparr>),
                       ((3, 4), \<lparr>territory = 5, startTime = 0, lastUpdate = 0\<rparr>)]\<rparr>"

text \<open>One gangster of base strength 2 with the ally of bit 0, holding slot 0.\<close>

definition allied :: TerritorySystem where
  "allied =
     \<lparr>time = 0, gangsters = [1],
      territoryControl = (\<lambda>g. plainTerritory\<lparr>territories := 1\<rparr>),
      warfareState = (\<lambda>g. plainWarfare\<lparr>warStrength := 2, allies := 1\<rparr>),
      territoryGrid = replicate 16 None,
      conflictCache = []\<rparr>"

text \<open>One gangster of base strength 2 without allies, holding slot 0 with stability 1.\<close>

definition steady :: TerritorySystem where
  "steady =
     \<lparr>time = 0, gangsters = [1],
      territoryControl = (\<lambda>g. plainTerritory\<lparr>territories := 1,
         stability := [1, 0, 0, 0, 0, 0, 0, 0, 0, 0, 0, 0, 0, 0, 0, 0]\<rparr>),
      warfareState = (\<lambda>g. plainWarfare\<lparr>warStrength := 2\<rparr>),
      territoryGrid = replicate 16 None,
      conflictCache = []\<rparr>"

text \<open>
  States for conflict detection, at tick 0 with an empty cache: in \<open>twoSlots\<close> the
  gangsters 1 and 2 both hold slots 3 and 5; in \<open>crowd gs\<close> every gangster of the query
  result \<open>gs\<close> holds slot 3.
\<close>

definition twoSlots :: TerritorySystem where
  "twoSlots =
     \<lparr>time = 0, gangsters = [1, 2],
      territoryControl = (\<lambda>g. plainTerritory\<lparr>territories := 40\<rparr>),
      warfareState = (\<lambda>g. plainWarfare),
      territoryGrid = replicate 16 None,
      conflictCache = []\<rparr>"

definition crowd :: "entity list \<Rightarrow> TerritorySystem" where
  "crowd gs =
     \<lparr>time = 0, gangsters = gs,
      territoryControl = (\<lambda>g. plainTerritory\<lparr>territories := 8\<rparr>),
      warfareState = (\<lambda>g. plainWarfare),
      territoryGrid = replicate 16 None,
      conflictCache = []\<rparr>"

section \<open>Example states of the conspiracy and underground systems\<close>

text \<open>
  Stand-ins for the undefined methods: every designated successor is viable, nobody else
  is, every candidate has support 1, a collapse affects all agents, the realignment
  changes nothing, and the status of an agent is the tick at which it is computed.
\<close>

definition plainMethods :: "nat ConspiracyMethods" where
  "plainMethods =
     \<lparr>isViableSuccessor = (\<lambda>w a p v. True),
      isViableClaimant = (\<lambda>w a p v. False),
      calculateSupport = (\<lambda>w a agents. 1),
      findAffectedAgents = (\<lambda>w v agents. agents),
      forceConspiracyRealignment = (\<lambda>a w. w),
      divideSupporters = (\<lambda>w v successors. []),
      allocateConspiracyBit = (\<lambda>w. (0, w)),
      SEIZE_POWER = 1,
      RESTORE_STABILITY = 2,
      calculateConspiracyStatus = (\<lambda>w a c p. nat (time w))\<rparr>"

definition plainConspiracy :: ConspiracyState where
  "plainConspiracy =
     \<lparr>membershipFlags = 0, rank = [0, 0, 0, 0], knownMembers = 0, secretGoals = [0, 0, 0, 0],
      publicGoals = [0, 0, 0, 0], trustNetwork = 0\<rparr>"

text \<open>
  Agent 1 holds position 2, every other agent position 0; all have stability 0.1 and the
  given succession list. \<open>throne\<close> is the vacuum \<open>detectPowerVacuums\<close> finds there.
\<close>

definition court :: "entity list \<Rightarrow> nat ConspiracySystem" where
  "court successors =
     \<lparr>time = 0,
      conspiracyState = (\<lambda>a. plainConspiracy),
      powerStructure = (\<lambda>a. \<lparr>leaderPosition = (if a = 1 then 2 else 0), succession = successors,
                              supporters = 0, powerRivals = 0, powerBase = 1,
                              stabilityFactor = 0.1\<rparr>),
      conspiracyCache = [],
      statusCalls = 0\<rparr>"

definition throne :: vacuum where
  "throne = \<lparr>position = 2, agent = 1, severity = 0.9\<rparr>"

text \<open>
  Two active markets, 2 and 5, and an empty discovery cache at tick 0; a market's
  suitability is its number.
\<close>

definition bazaar :: UndergroundSystem where
  "bazaar = \<lparr>time = 0, activeMarkets = [2, 5], discoveryCache = [], searches = 0\<rparr>"

definition marketNumber :: "nat \<Rightarrow> entity \<Rightarrow> real" where
  "marketNumber marketId operator = real marketId"

text \<open>An operator's component with access to the markets 2 and 5.\<close>

definition dealer :: UndergroundEconomy where
  "dealer =
     \<lparr>marketAccess = 36, contraband = [0, 0, 0, 0, 0, 0, 0, 0], contacts = 0,
      undergroundReputation = 0, heatLevel = 0, fronts = [0, 0, 0, 0]\<rparr>"

text \<open>
  The same two states at tick 100, each cache holding an entry stamped at tick 0 for the
  key of agent 1: an entry of age exactly 100.
\<close>

definition staleCourt :: "nat ConspiracySystem" where
  "staleCourt =
     (court [])\<lparr>time := 100, conspiracyCache := [((1, 0), \<lparr>cached = 7, timestamp = 0\<rparr>)]\<rparr>"

definition staleBazaar :: UndergroundSystem where
  "staleBazaar =
     bazaar\<lparr>time := 100, discoveryCache := [((1, 36), \<lparr>cached = None, timestamp = 0\<rparr>)]\<rparr>"


section \<open>Conflict registration\<close>

lemma modWarfare_simps [simp]:
  "time (modWarfare g f w) = time w"
  "gangsters (modWarfare g f w) = gangsters w"
  "territoryControl (modWarfare g f w) = territoryControl w"
  "warfareState (modWarfare g f w) = (warfareState w)(g := f (warfareState w g))"
  "territoryGrid (modWarfare g f w) = territoryGrid w"
  "conflictCache (modWarfare g f w) = conflictCache w"
  by (simp_all add: modWarfare_def)

lemma modTerritory_simps [simp]:
  "time (modTerritory g f w) = time w"
  "gangsters (modTerritory g f w) = gangsters w"
  "territoryControl (modTerritory g f w) = (territoryControl w)(g := f (territoryControl w g))"
  "warfareState (modTerritory g f w) = warfareState w"
  "territoryGrid (modTerritory g f w) = territoryGrid w"
  "conflictCache (modTerritory g f w) = conflictCache w"
  by (simp_all add: modTerritory_def)

lemma duel_simps:
  "time (duel s1 s2 gs) = 101"
  "gangsters (duel s1 s2 gs) = gs"
  "conflictCache (duel s1 s2 gs) = [((1, 2), \<lparr>territory = 3, startTime = 0, lastUpdate = 0\<rparr>)]"
  "warfareState (duel s1 s2 gs) g
     = plainWarfare\<lparr>activeConflicts := 8, warStrength := (if g = 1 then s1 else s2)\<rparr>"
  "territoryControl (duel s1 s2 gs) g = plainTerritory\<lparr>territories := 8\<rparr>"
  by (simp_all add: duel_def)

lemma conflictKey_commute: "conflictKey a b = conflictKey b a"
  by (simp add: conflictKey_def min.commute max.commute)

lemma registerConflict_frame [simp]:
  "territoryControl (registerConflict a b t w) = territoryControl w"
  "time (registerConflict a b t w) = time w"
  "gangsters (registerConflict a b t w) = gangsters w"
  "territoryGrid (registerConflict a b t w) = territoryGrid w"
  by (simp_all add: registerConflict_def Let_def)

lemma update_absent: "map_of al k = None \<Longrightarrow> AList.update k v al = al @ [(k, v)]"
  by (induction al) (auto split: if_splits)

text \<open>A first registration appends one entry stamped with the current tick.\<close>

lemma registerConflict_new:
  assumes "map_of (conflictCache w) (conflictKey a b) = None"
  shows "conflictCache (registerConflict a b t w)
           = conflictCache w @ [(conflictKey a b, \<lparr>territory = t, startTime = time w, lastUpdate = time w\<rparr>)]"
    and "warfareState (registerConflict a b t w) g
           = (if g = a \<or> g = b
              then (warfareState w g)\<lparr>activeConflicts := activeConflicts (warfareState w g) OR shl1 t\<rparr>
              else warfareState w g)"
  using assms by (simp_all add: registerConflict_def Let_def update_absent)

lemma registerConflict_lookup:
  "map_of (conflictCache (registerConflict a b t w)) k =
     (if k = conflictKey a b \<and> map_of (conflictCache w) k = None
      then Some \<lparr>territory = t, startTime = time w, lastUpdate = time w\<rparr>
      else map_of (conflictCache w) k)"
  by (auto simp add: registerConflict_def Let_def update_conv')

lemma registerConflict_grid:
  "registerConflict a b t (w\<lparr>territoryGrid := G\<rparr>) = (registerConflict a b t w)\<lparr>territoryGrid := G\<rparr>"
  by (simp add: registerConflict_def Let_def modWarfare_def)

lemma registerConflict_again:
  "registerConflict a b t' (registerConflict a b t w) = registerConflict a b t w"
  by (auto simp add: registerConflict_def [of a b t'] registerConflict_lookup)

text \<open>
  Claim C5. Registration is idempotent: when a conflict of the pair is already in the
  pending map, registering a claim of the same pair again (in either order of the two
  gangs, at any tick, for any slot) changes nothing. The map keeps its size, the entry of
  the pair is the one it was, with its \<open>startTime\<close> and \<open>lastUpdate\<close>, and indeed the whole
  state is unchanged.
\<close>

theorem registerConflict_idempotent:
  assumes "map_of (conflictCache w) (conflictKey gang1 gang2) = Some c"
  shows "length (conflictCache (registerConflict gang1 gang2 territoryId w)) = length (conflictCache w)
       \<and> map_of (conflictCache (registerConflict gang1 gang2 territoryId w)) (conflictKey gang1 gang2)
           = Some c
       \<and> registerConflict gang1 gang2 territoryId w = w
       \<and> registerConflict gang2 gang1 territoryId w = w"
proof -
  from assms have present: "map_of (conflictCache w) (conflictKey gang1 gang2) \<noteq> None"
    by simp
  then have same: "registerConflict gang1 gang2 territoryId w = w"
    by (auto simp add: registerConflict_def)
  from present have "map_of (conflictCache w) (conflictKey gang2 gang1) \<noteq> None"
    by (simp add: conflictKey_commute [of gang2 gang1])
  then have "registerConflict gang2 gang1 territoryId w = w"
    by (auto simp add: registerConflict_def)
  with same assms show ?thesis by simp
qed

text \<open>
  The theorem at the pending conflict of gangs 1 and 2 on slot 3: gang 2 claims slot 5
  against gang 1 a hundred and one ticks after the first registration.
\<close>

theorem registerConflict_idempotent_witness:
  "map_of (conflictCache (duel 1 1 [1, 2])) (conflictKey 2 1)
     = Some \<lparr>territory = 3, startTime = 0, lastUpdate = 0\<rparr>
 \<and> length (conflictCache (registerConflict 2 1 5 (duel 1 1 [1, 2]))) = 1
 \<and> map_of (conflictCache (registerConflict 2 1 5 (duel 1 1 [1, 2]))) (conflictKey 2 1)
     = Some \<lparr>territory = 3, startTime = 0, lastUpdate = 0\<rparr>
 \<and> registerConflict 2 1 5 (duel 1 1 [1, 2]) = duel 1 1 [1, 2]"
proof -
  have pending: "map_of (conflictCache (duel 1 1 [1, 2])) (conflictKey 2 1)
                   = Some \<lparr>territory = 3, startTime = 0, lastUpdate = 0\<rparr>"
    by (simp add: duel_simps conflictKey_def)
  from registerConflict_idempotent [OF pending, of 5] pending show ?thesis
    by (simp add: duel_simps)
qed

text \<open>Registering twice in a row is registering once, whatever tick the second call has.\<close>

lemma registerConflict_twice:
  "registerConflict a b t2 ((registerConflict a b t1 w)\<lparr>time := later\<rparr>)
     = (registerConflict a b t1 w)\<lparr>time := later\<rparr>"
  by (cases "map_of (conflictCache w) (conflictKey a b)")
     (simp_all add: registerConflict_def Let_def update_conv')

section \<open>Conflict detection\<close>

lemma upt_16: "[0..<16] = [0, 1, 2, 3, 4, 5, 6, 7, 8, 9, 10, 11, 12, 13, 14, 15]"
  by (simp add: upt_rec)

lemma find_snoc:
  "find P (xs @ [x]) = (case find P xs of Some y \<Rightarrow> Some y | None \<Rightarrow> if P x then Some x else None)"
  by (induction xs) auto

lemma find_Some_mem: "find P xs = Some y \<Longrightarrow> y \<in> set xs \<and> P y"
  by (induction xs) (auto split: if_splits)

lemma joinsFirst_mono:
  assumes "joinsFirst w0 seen key c"
  shows "joinsFirst w0 (seen(n := seen n @ [g])) key c"
proof -
  let ?t = "territory c"
  let ?seen = "seen(n := seen n @ [g])"
  from assms have t: "?t < TERRITORY_GRID" by (simp add: joinsFirst_def)
  have keep: "find (\<lambda>x. claims w0 x ?t) (?seen ?t) = Some f"
    if "find (\<lambda>x. claims w0 x ?t) (seen ?t) = Some f" for f
    using that by (auto simp add: find_snoc)
  from assms consider (zero) "find (\<lambda>x. claims w0 x ?t) (seen ?t) = Some 0"
    | (pair) f x where "find (\<lambda>x. claims w0 x ?t) (seen ?t) = Some f"
        "x \<in> set (seen ?t)" "x \<noteq> f" "claims w0 x ?t" "key = conflictKey x f"
    by (auto simp: joinsFirst_def)
  then show ?thesis
  proof cases
    case zero
    from keep [OF zero] t show ?thesis unfolding joinsFirst_def by blast
  next
    case pair
    from pair(2) have "x \<in> set (?seen ?t)" by auto
    with keep [OF pair(1)] t pair(3,4,5) show ?thesis unfolding joinsFirst_def by blast
  qed
qed

text \<open>
  What one step of the inner loop does to the grid and to the cache. Nothing is asked of
  the cell while the first claimant seen is entity 0.
\<close>

lemma claimCell_effect:
  assumes tc: "territoryControl w = territoryControl w0"
    and len: "length (territoryGrid w) = TERRITORY_GRID"
    and cell: "find (\<lambda>x. claims w0 x n) (seen n) \<noteq> Some 0 \<longrightarrow>
                 territoryGrid w ! n = find (\<lambda>x. claims w0 x n) (seen n)"
    and n: "n < TERRITORY_GRID"
    and g: "g \<notin> set (seen n)"
  shows "territoryControl (claimCell g w n) = territoryControl w"
    and "time (claimCell g w n) = time w"
    and "gangsters (claimCell g w n) = gangsters w"
    and "length (territoryGrid (claimCell g w n)) = TERRITORY_GRID"
    and "find (\<lambda>x. claims w0 x n) (seen n @ [g]) \<noteq> Some 0 \<Longrightarrow>
           territoryGrid (claimCell g w n) ! n = find (\<lambda>x. claims w0 x n) (seen n @ [g])"
    and "\<And>i. i \<noteq> n \<Longrightarrow> territoryGrid (claimCell g w n) ! i = territoryGrid w ! i"
    and "\<And>k c. map_of (conflictCache (claimCell g w n)) k = Some c \<Longrightarrow>
           map_of (conflictCache w) k = Some c \<or> joinsFirst w0 (seen(n := seen n @ [g])) k c"
    and "\<And>k c. map_of (conflictCache w) k = Some c \<Longrightarrow>
           map_of (conflictCache (claimCell g w n)) k = Some c"
    and "\<And>f. find (\<lambda>x. claims w0 x n) (seen n) = Some f \<Longrightarrow> f \<noteq> 0 \<Longrightarrow> claims w0 g n \<Longrightarrow>
           map_of (conflictCache (claimCell g w n)) (conflictKey g f) \<noteq> None"
proof -
  have cl: "(territories (territoryControl w g) AND shl1 n \<noteq> 0) = claims w0 g n"
    by (simp add: claims_def tc)
  consider (skip) "\<not> claims w0 g n"
    | (slip) "claims w0 g n" "find (\<lambda>x. claims w0 x n) (seen n) = Some 0"
    | (free) "claims w0 g n" "find (\<lambda>x. claims w0 x n) (seen n) = None"
    | (taken) f where "claims w0 g n" "find (\<lambda>x. claims w0 x n) (seen n) = Some f" "f \<noteq> 0"
    by (cases "find (\<lambda>x. claims w0 x n) (seen n)") auto
  then have
    "territoryControl (claimCell g w n) = territoryControl w
     \<and> time (claimCell g w n) = time w
     \<and> gangsters (claimCell g w n) = gangsters w
     \<and> length (territoryGrid (claimCell g w n)) = TERRITORY_GRID
     \<and> (find (\<lambda>x. claims w0 x n) (seen n @ [g]) \<noteq> Some 0 \<longrightarrow>
           territoryGrid (claimCell g w n) ! n = find (\<lambda>x. claims w0 x n) (seen n @ [g]))
     \<and> (\<forall>i. i \<noteq> n \<longrightarrow> territoryGrid (claimCell g w n) ! i = territoryGrid w ! i)
     \<and> (\<forall>k c. map_of (conflictCache (claimCell g w n)) k = Some c \<longrightarrow>
           map_of (conflictCache w) k = Some c \<or> joinsFirst w0 (seen(n := seen n @ [g])) k c)
     \<and> (\<forall>k c. map_of (conflictCache w) k = Some c \<longrightarrow>
           map_of (conflictCache (claimCell g w n)) k = Some c)
     \<and> (\<forall>f. find (\<lambda>x. claims w0 x n) (seen n) = Some f \<longrightarrow> f \<noteq> 0 \<longrightarrow> claims w0 g n \<longrightarrow>
           map_of (conflictCache (claimCell g w n)) (conflictKey g f) \<noteq> None)"
  proof cases
    case skip
    then have "claimCell g w n = w" by (simp add: claimCell_def cl)
    then show ?thesis using skip len cell by (auto simp add: find_snoc split: option.splits)
  next
    case slip
    have new: "joinsFirst w0 (seen(n := seen n @ [g])) k c" if "territory c = n" for k c
      unfolding joinsFirst_def using slip n that by (simp add: find_snoc)
    show ?thesis
    proof (cases "truthy (territoryGrid w ! n)")
      case True
      with slip have step: "claimCell g w n = registerConflict g (the (territoryGrid w ! n)) n w"
        by (simp add: claimCell_def cl)
      show ?thesis
        unfolding step using slip len new
        by (auto simp: registerConflict_lookup find_snoc split: if_splits)
    next
      case False
      with slip have "claimCell g w n = w\<lparr>territoryGrid := (territoryGrid w)[n := Some g]\<rparr>"
        by (simp add: claimCell_def cl)
      then show ?thesis using slip len n by (simp add: find_snoc)
    qed
  next
    case free
    with cell have "territoryGrid w ! n = None" by simp
    with free have "claimCell g w n = w\<lparr>territoryGrid := (territoryGrid w)[n := Some g]\<rparr>"
      by (simp add: claimCell_def cl)
    then show ?thesis using free len n by (simp add: find_snoc)
  next
    case taken
    from find_Some_mem [OF taken(2)] g have gf: "g \<noteq> f" "f \<in> set (seen n)" by auto
    from cell taken have occ: "territoryGrid w ! n = Some f" by simp
    with taken have step: "claimCell g w n = registerConflict g f n w"
      by (simp add: claimCell_def cl)
    have new: "joinsFirst w0 (seen(n := seen n @ [g])) (conflictKey g f)
                 \<lparr>territory = n, startTime = time w, lastUpdate = time w\<rparr>"
      unfolding joinsFirst_def using taken gf n
      by (auto simp: find_snoc intro!: exI [of _ f] exI [of _ g])
    show ?thesis
      unfolding step using taken len occ new
      by (auto simp: registerConflict_lookup find_snoc split: if_splits)
  qed
  then show "territoryControl (claimCell g w n) = territoryControl w"
    and "time (claimCell g w n) = time w"
    and "gangsters (claimCell g w n) = gangsters w"
    and "length (territoryGrid (claimCell g w n)) = TERRITORY_GRID"
    and "find (\<lambda>x. claims w0 x n) (seen n @ [g]) \<noteq> Some 0 \<Longrightarrow>
           territoryGrid (claimCell g w n) ! n = find (\<lambda>x. claims w0 x n) (seen n @ [g])"
    and "\<And>i. i \<noteq> n \<Longrightarrow> territoryGrid (claimCell g w n) ! i = territoryGrid w ! i"
    and "\<And>k c. map_of (conflictCache (claimCell g w n)) k = Some c \<Longrightarrow>
           map_of (conflictCache w) k = Some c \<or> joinsFirst w0 (seen(n := seen n @ [g])) k c"
    and "\<And>k c. map_of (conflictCache w) k = Some c \<Longrightarrow>
           map_of (conflictCache (claimCell g w n)) k = Some c"
    and "\<And>f. find (\<lambda>x. claims w0 x n) (seen n) = Some f \<Longrightarrow> f \<noteq> 0 \<Longrightarrow> claims w0 g n \<Longrightarrow>
           map_of (conflictCache (claimCell g w n)) (conflictKey g f) \<noteq> None"
    by blast+
qed

lemma detectionInvariantD:
  assumes "detectionInvariant w0 seen w"
  shows "territoryControl w = territoryControl w0"
    and "time w = time w0"
    and "gangsters w = gangsters w0"
    and "length (territoryGrid w) = TERRITORY_GRID"
    and "\<And>i. i < TERRITORY_GRID \<Longrightarrow> find (\<lambda>x. claims w0 x i) (seen i) \<noteq> Some 0 \<Longrightarrow>
           territoryGrid w ! i = find (\<lambda>x. claims w0 x i) (seen i)"
    and "\<And>k c. map_of (conflictCache w) k = Some c \<Longrightarrow>
           map_of (conflictCache w0) k = Some c \<or> joinsFirst w0 seen k c"
    and "\<And>i f x. i < TERRITORY_GRID \<Longrightarrow>
           find (\<lambda>x. claims w0 x i) (seen i) = Some f \<and> f \<noteq> 0 \<and> x \<in> set (seen i) \<and> x \<noteq> f
             \<and> claims w0 x i \<Longrightarrow>
           map_of (conflictCache w) (conflictKey x f) \<noteq> None"
    and "\<And>k c. map_of (conflictCache w0) k = Some c \<Longrightarrow> map_of (conflictCache w) k = Some c"
proof -
  from assms have all:
    "territoryControl w = territoryControl w0 \<and> time w = time w0
      \<and> gangsters w = gangsters w0
      \<and> length (territoryGrid w) = TERRITORY_GRID
      \<and> (\<forall>i < TERRITORY_GRID. find (\<lambda>x. claims w0 x i) (seen i) \<noteq> Some 0 \<longrightarrow>
             territoryGrid w ! i = find (\<lambda>x. claims w0 x i) (seen i))
      \<and> (\<forall>key c. map_of (conflictCache w) key = Some c \<longrightarrow>
             map_of (conflictCache w0) key = Some c \<or> joinsFirst w0 seen key c)
      \<and> (\<forall>i < TERRITORY_GRID. \<forall>f g.
             find (\<lambda>x. claims w0 x i) (seen i) = Some f \<and> f \<noteq> 0 \<and> g \<in> set (seen i)
               \<and> g \<noteq> f \<and> claims w0 g i
             \<longrightarrow> map_of (conflictCache w) (conflictKey g f) \<noteq> None)
      \<and> (\<forall>key c. map_of (conflictCache w0) key = Some c \<longrightarrow> map_of (conflictCache w) key = Some c)"
    unfolding detectionInvariant_def .
  note rest1 = all [THEN conjunct2]
  note rest2 = rest1 [THEN conjunct2]
  note rest3 = rest2 [THEN conjunct2]
  note rest4 = rest3 [THEN conjunct2]
  note rest5 = rest4 [THEN conjunct2]
  note rest6 = rest5 [THEN conjunct2]
  show "territoryControl w = territoryControl w0" by (rule all [THEN conjunct1])
  show "time w = time w0" by (rule rest1 [THEN conjunct1])
  show "gangsters w = gangsters w0" by (rule rest2 [THEN conjunct1])
  show "length (territoryGrid w) = TERRITORY_GRID" by (rule rest3 [THEN conjunct1])
  show "\<And>i. i < TERRITORY_GRID \<Longrightarrow> find (\<lambda>x. claims w0 x i) (seen i) \<noteq> Some 0 \<Longrightarrow>
           territoryGrid w ! i = find (\<lambda>x. claims w0 x i) (seen i)"
    by (rule rest4 [THEN conjunct1, rule_format])
  show "\<And>k c. map_of (conflictCache w) k = Some c \<Longrightarrow>
           map_of (conflictCache w0) k = Some c \<or> joinsFirst w0 seen k c"
    by (rule rest5 [THEN conjunct1, rule_format])
  show "\<And>i f x. i < TERRITORY_GRID \<Longrightarrow>
           find (\<lambda>x. claims w0 x i) (seen i) = Some f \<and> f \<noteq> 0 \<and> x \<in> set (seen i) \<and> x \<noteq> f
             \<and> claims w0 x i \<Longrightarrow>
           map_of (conflictCache w) (conflictKey x f) \<noteq> None"
    by (rule rest6 [THEN conjunct1, rule_format])
  show "\<And>k c. map_of (conflictCache w0) k = Some c \<Longrightarrow> map_of (conflictCache w) k = Some c"
    by (rule rest6 [THEN conjunct2, rule_format])
qed

lemma claimCell_step:
  assumes inv: "detectionInvariant w0 seen w"
    and n: "n < TERRITORY_GRID"
    and g: "g \<notin> set (seen n)"
  shows "detectionInvariant w0 (seen(n := seen n @ [g])) (claimCell g w n)"
proof -
  let ?P = "\<lambda>i x. claims w0 x i"
  let ?seen = "seen(n := seen n @ [g])"
  let ?w = "claimCell g w n"
  note tc = detectionInvariantD(1) [OF inv] and tm = detectionInvariantD(2) [OF inv]
    and gs = detectionInvariantD(3) [OF inv] and len = detectionInvariantD(4) [OF inv]
    and grid = detectionInvariantD(5) [OF inv] and ent = detectionInvariantD(6) [OF inv]
    and old = detectionInvariantD(8) [OF inv]
  have pairs: "map_of (conflictCache w) (conflictKey x f) \<noteq> None"
    if "i < TERRITORY_GRID" "find (?P i) (seen i) = Some f" "f \<noteq> 0" "x \<in> set (seen i)"
      "x \<noteq> f" "claims w0 x i" for i f x
    using detectionInvariantD(7) [OF inv that(1), of f x] that(2-) by simp
  from grid [OF n]
  have cell: "find (?P n) (seen n) \<noteq> Some 0 \<longrightarrow> territoryGrid w ! n = find (?P n) (seen n)"
    by simp
  note eff = claimCell_effect [where seen = seen, OF tc len cell n g]
  have 1: "territoryControl ?w = territoryControl w0" "time ?w = time w0" "gangsters ?w = gangsters w0"
    "length (territoryGrid ?w) = TERRITORY_GRID"
    using eff(1-4) tc tm gs by simp_all
  have 2: "territoryGrid ?w ! i = find (?P i) (?seen i)"
    if "i < TERRITORY_GRID" and "find (?P i) (?seen i) \<noteq> Some 0" for i
  proof (cases "i = n")
    case True
    with eff(5) that(2) show ?thesis by simp
  next
    case False
    with eff(6) [of i] grid [OF that(1)] that(2) show ?thesis by simp
  qed
  have 3: "map_of (conflictCache w0) k = Some c \<or> joinsFirst w0 ?seen k c"
    if "map_of (conflictCache ?w) k = Some c" for k c
    using eff(7) [OF that] ent [of k c] joinsFirst_mono [of w0 seen k c n g] by blast
  have 4: "map_of (conflictCache ?w) (conflictKey x f) \<noteq> None"
    if i: "i < TERRITORY_GRID" and f: "find (?P i) (?seen i) = Some f" and f0: "f \<noteq> 0"
      and x: "x \<in> set (?seen i)" and xf: "x \<noteq> f" and cx: "claims w0 x i" for i f x
  proof (cases "i = n")
    case False
    with f x have "find (?P i) (seen i) = Some f" "x \<in> set (seen i)" by simp_all
    from pairs [OF i this(1) f0 this(2) xf cx]
    obtain c where "map_of (conflictCache w) (conflictKey x f) = Some c"
      by blast
    from eff(8) [OF this] show ?thesis by simp
  next
    case True
    show ?thesis
    proof (cases "find (?P n) (seen n)")
      case None
      then have "\<And>y. y \<in> set (seen n) \<Longrightarrow> \<not> claims w0 y n" by (simp add: find_None_iff)
      moreover from f None True have "f = g" by (simp add: find_snoc split: if_splits)
      ultimately show ?thesis using x xf cx True by auto
    next
      case (Some f0)
      with f True have ff: "f = f0" by (simp add: find_snoc)
      show ?thesis
      proof (cases "x = g")
        case True
        with eff(9) [OF Some] cx \<open>i = n\<close> ff f0 show ?thesis by simp
      next
        case False
        with x \<open>i = n\<close> have "x \<in> set (seen n)" by simp
        from pairs [OF n Some _ this] xf cx ff f0 \<open>i = n\<close>
        obtain c where "map_of (conflictCache w) (conflictKey x f) = Some c" by blast
        from eff(8) [OF this] show ?thesis by simp
      qed
    qed
  qed
  have 5: "map_of (conflictCache ?w) k = Some c" if "map_of (conflictCache w0) k = Some c" for k c
    using eff(8) [OF old [OF that]] .
  have A: "\<forall>i < TERRITORY_GRID. find (?P i) (?seen i) \<noteq> Some 0 \<longrightarrow>
             territoryGrid ?w ! i = find (?P i) (?seen i)"
    using 2 by simp
  have B: "\<forall>key c. map_of (conflictCache ?w) key = Some c \<longrightarrow>
             map_of (conflictCache w0) key = Some c \<or> joinsFirst w0 ?seen key c"
    using 3 by simp
  have C: "\<forall>i < TERRITORY_GRID. \<forall>f g.
             find (?P i) (?seen i) = Some f \<and> f \<noteq> 0 \<and> g \<in> set (?seen i)
               \<and> g \<noteq> f \<and> claims w0 g i
             \<longrightarrow> map_of (conflictCache ?w) (conflictKey g f) \<noteq> None"
  proof (intro allI impI)
    fix i f x
    assume "i < TERRITORY_GRID"
      and "find (?P i) (?seen i) = Some f \<and> f \<noteq> 0 \<and> x \<in> set (?seen i) \<and> x \<noteq> f \<and> claims w0 x i"
    then show "map_of (conflictCache ?w) (conflictKey x f) \<noteq> None"
      using 4 [of i f x] by simp
  qed
  have D: "\<forall>key c. map_of (conflictCache w0) key = Some c \<longrightarrow> map_of (conflictCache ?w) key = Some c"
    using 5 by simp
  show ?thesis
    unfolding detectionInvariant_def by (intro conjI 1 A B C D)
qed

lemma detectionInvariant_cong:
  assumes "detectionInvariant w0 seen w" and "\<And>i. i < TERRITORY_GRID \<Longrightarrow> seen' i = seen i"
  shows "detectionInvariant w0 seen' w"
proof -
  have j: "joinsFirst w0 seen' k c = joinsFirst w0 seen k c" for k c
    unfolding joinsFirst_def using assms(2) by (cases "territory c < TERRITORY_GRID") simp_all
  from assms(1) show ?thesis
    unfolding detectionInvariant_def by (simp add: j assms(2))
qed

lemma claimCells_prefix:
  assumes inv: "detectionInvariant w0 (\<lambda>i. ps) w"
    and g: "g \<notin> set ps"
  shows "k \<le> TERRITORY_GRID \<Longrightarrow>
         detectionInvariant w0 (\<lambda>i. if i < k then ps @ [g] else ps) (foldl (claimCell g) w [0..<k])"
proof (induction k)
  case 0
  with inv show ?case by simp
next
  case (Suc k)
  then have k: "k < TERRITORY_GRID" and ih:
    "detectionInvariant w0 (\<lambda>i. if i < k then ps @ [g] else ps) (foldl (claimCell g) w [0..<k])"
    by simp_all
  have "detectionInvariant w0 ((\<lambda>i. if i < k then ps @ [g] else ps)(k := ps @ [g]))
          (claimCell g (foldl (claimCell g) w [0..<k]) k)"
    using claimCell_step [OF ih k] g by simp
  moreover have "(\<lambda>i. if i < k then ps @ [g] else ps)(k := ps @ [g])
                   = (\<lambda>i. if i < Suc k then ps @ [g] else ps)"
    by (auto simp: fun_eq_iff)
  ultimately show ?case by simp
qed

lemma claimCells_step:
  assumes "detectionInvariant w0 (\<lambda>i. ps) w" and "g \<notin> set ps"
  shows "detectionInvariant w0 (\<lambda>i. ps @ [g]) (claimCells w g)"
  unfolding claimCells_def
  by (rule detectionInvariant_cong [OF claimCells_prefix [OF assms order_refl]]) simp

lemma claimCells_loop:
  assumes "detectionInvariant w0 (\<lambda>i. ps) w" and "distinct (ps @ gs)"
  shows "detectionInvariant w0 (\<lambda>i. ps @ gs) (foldl claimCells w gs)"
  using assms
proof (induction gs arbitrary: ps w)
  case Nil
  then show ?case by simp
next
  case (Cons g gs)
  from Cons.prems have "detectionInvariant w0 (\<lambda>i. ps @ [g]) (claimCells w g)"
    by (intro claimCells_step) auto
  from Cons.IH [OF this] Cons.prems(2) show ?case by simp
qed

lemma detectionInvariant_start:
  "detectionInvariant (w\<lparr>territoryGrid := replicate TERRITORY_GRID None\<rparr>) (\<lambda>i. [])
     (w\<lparr>territoryGrid := replicate TERRITORY_GRID None\<rparr>)"
  by (simp add: detectionInvariant_def)

lemma updateTerritories_invariant:
  assumes "distinct (gangsters w)"
  shows "detectionInvariant (w\<lparr>territoryGrid := replicate TERRITORY_GRID None\<rparr>)
           (\<lambda>i. gangsters w) (updateTerritories w)"
  unfolding updateTerritories_def
  using claimCells_loop [OF detectionInvariant_start, of "gangsters w" w] assms by simp

lemma claims_grid [simp]: "claims (w\<lparr>territoryGrid := G\<rparr>) = claims w"
  by (simp add: claims_def fun_eq_iff)

text \<open>
  The invariant at the end of the pass, for a query that yields each gangster once. Every
  grid cell whose first claimant in query order is not entity 0 holds that first claimant,
  whatever the number of later claimants. Every conflict the pass registers for such a
  slot has the slot's first claimant as one party and a different claimant of the slot as
  the other, so none is registered there between two later claimants. Every later claimant
  of such a slot has a pending conflict with its first claimant.
\<close>

lemma first_claimant_keeps_cell:
  assumes "distinct (gangsters w)"
  shows "(\<forall>i < TERRITORY_GRID. firstClaimant w i \<noteq> Some 0 \<longrightarrow>
              territoryGrid (updateTerritories w) ! i = firstClaimant w i)
       \<and> (\<forall>key c. map_of (conflictCache (updateTerritories w)) key = Some c
                  \<and> map_of (conflictCache w) key \<noteq> Some c
                  \<and> firstClaimant w (territory c) \<noteq> Some 0 \<longrightarrow>
              territory c < TERRITORY_GRID
            \<and> (\<exists>f g. firstClaimant w (territory c) = Some f \<and> g \<in> set (gangsters w) \<and> g \<noteq> f
                     \<and> claims w g (territory c) \<and> key = conflictKey g f))
       \<and> (\<forall>i < TERRITORY_GRID. \<forall>f g.
              firstClaimant w i = Some f \<and> f \<noteq> 0 \<and> g \<in> set (gangsters w) \<and> g \<noteq> f
                \<and> claims w g i \<longrightarrow>
              map_of (conflictCache (updateTerritories w)) (conflictKey g f) \<noteq> None)"
proof -
  let ?w0 = "w\<lparr>territoryGrid := replicate TERRITORY_GRID None\<rparr>"
  from updateTerritories_invariant [OF assms]
  have inv: "detectionInvariant ?w0 (\<lambda>i. gangsters w) (updateTerritories w)" .
  have grid: "\<forall>i < TERRITORY_GRID. firstClaimant w i \<noteq> Some 0 \<longrightarrow>
      territoryGrid (updateTerritories w) ! i = firstClaimant w i"
    using detectionInvariantD(5) [OF inv] by (simp add: firstClaimant_def)
  have ent: "map_of (conflictCache w) key = Some c \<or> joinsFirst ?w0 (\<lambda>i. gangsters w) key c"
    if "map_of (conflictCache (updateTerritories w)) key = Some c" for key c
    using detectionInvariantD(6) [OF inv that] by simp
  have new: "\<forall>key c. map_of (conflictCache (updateTerritories w)) key = Some c
                  \<and> map_of (conflictCache w) key \<noteq> Some c
                  \<and> firstClaimant w (territory c) \<noteq> Some 0 \<longrightarrow>
              territory c < TERRITORY_GRID
            \<and> (\<exists>f g. firstClaimant w (territory c) = Some f \<and> g \<in> set (gangsters w) \<and> g \<noteq> f
                     \<and> claims w g (territory c) \<and> key = conflictKey g f)"
  proof (intro allI impI)
    fix key c
    assume a: "map_of (conflictCache (updateTerritories w)) key = Some c
                  \<and> map_of (conflictCache w) key \<noteq> Some c
                  \<and> firstClaimant w (territory c) \<noteq> Some 0"
    with ent [of key c] have "joinsFirst ?w0 (\<lambda>i. gangsters w) key c" by simp
    with a show "territory c < TERRITORY_GRID
            \<and> (\<exists>f g. firstClaimant w (territory c) = Some f \<and> g \<in> set (gangsters w) \<and> g \<noteq> f
                     \<and> claims w g (territory c) \<and> key = conflictKey g f)"
      by (simp add: joinsFirst_def firstClaimant_def)
  qed
  have pairs: "\<forall>i < TERRITORY_GRID. \<forall>f g.
              firstClaimant w i = Some f \<and> f \<noteq> 0 \<and> g \<in> set (gangsters w) \<and> g \<noteq> f
                \<and> claims w g i \<longrightarrow>
              map_of (conflictCache (updateTerritories w)) (conflictKey g f) \<noteq> None"
    using detectionInvariantD(7) [OF inv] by (simp add: firstClaimant_def)
  from grid new pairs show ?thesis by (intro conjI)
qed

lemma claims_bit: "claims w g i = bit (territories (territoryControl w g)) (i mod 32)"
  by (simp add: claims_def shl1_def bit_iff_and_push_bit_not_eq_0)

lemma bit_8_iff: "bit (8 :: int) n = (n = 3)"
proof -
  have "(8 :: int) = 2 ^ 3" by simp
  then show ?thesis by (simp only: bit_exp_iff) auto
qed

lemma crowd_simps:
  "gangsters (crowd gs) = gs"
  "conflictCache (crowd gs) = []"
  "claims (crowd gs) g i = (i mod 32 = 3)"
  by (simp_all add: claims_bit crowd_def plainTerritory_def bit_8_iff)

lemma crowd_first: "firstClaimant (crowd (g # gs)) i = (if i mod 32 = 3 then Some g else None)"
  by (simp add: firstClaimant_def crowd_simps find_None_iff)

text \<open>
  The lemma where entity 0 is in the query without a claim on the slot: of the gangsters
  0, 1, 2 and 3 the last three hold slot 3. The cell keeps gangster 1.
\<close>

lemma first_claimant_keeps_cell_example:
  "territoryGrid (updateTerritories ((crowd [0, 1, 2, 3])
      \<lparr>territoryControl := (\<lambda>g. if g = 0 then plainTerritory
                                else plainTerritory\<lparr>territories := 8\<rparr>)\<rparr>)) ! 3 = Some 1"
proof -
  define tc where "tc = (\<lambda>g :: entity. if g = 0 then plainTerritory
                                else plainTerritory\<lparr>territories := 8\<rparr>)"
  have c: "claims ((crowd gs)\<lparr>territoryControl := tc\<rparr>) g i = (g \<noteq> 0 \<and> i mod 32 = 3)" for gs g i
    by (simp add: claims_bit tc_def plainTerritory_def bit_8_iff)
  have f: "firstClaimant ((crowd (0 # g # gs))\<lparr>territoryControl := tc\<rparr>) 3 = Some g"
    if "g \<noteq> 0" for g gs
    unfolding firstClaimant_def c using that by (simp add: crowd_simps)
  have d: "distinct (gangsters ((crowd [0, 1, 2, 3])\<lparr>territoryControl := tc\<rparr>))"
    by (simp add: crowd_simps)
  have slot: "3 < TERRITORY_GRID" by (simp add: TERRITORY_GRID_def)
  have "territoryGrid (updateTerritories ((crowd [0, 1, 2, 3])\<lparr>territoryControl := tc\<rparr>)) ! 3
          = firstClaimant ((crowd [0, 1, 2, 3])\<lparr>territoryControl := tc\<rparr>) 3"
    by (rule first_claimant_keeps_cell [OF d, THEN conjunct1, rule_format, OF slot])
       (simp add: f)
  also have "\<dots> = Some 1" by (rule f) simp
  finally show ?thesis unfolding tc_def .
qed

text \<open>
  Claim C10 where the first claimant is entity 0. Gangsters 0, 1 and 2 all hold slot 3 and
  the query yields them in this order, so the first-processed claimant of the slot is
  gangster 0. The claim has the cell keep gangster 0 and no conflict between the later
  claimants 1 and 2. The test \<open>if (this.territoryGrid[i])\<close> of line 80 reads the occupant
  0 as an empty cell: the cell ends with gangster 1, and the one conflict registered
  joins the two later claimants 1 and 2, none joining gangster 0.
\<close>

theorem entity_zero_loses_cell:
  "firstClaimant (crowd [0, 1, 2]) 3 = Some 0
 \<and> territoryGrid (updateTerritories (crowd [0, 1, 2])) ! 3 = Some 1
 \<and> conflictCache (updateTerritories (crowd [0, 1, 2]))
     = [(conflictKey 2 1, \<lparr>territory = 3, startTime = 0, lastUpdate = 0\<rparr>)]"
  by (simp add: firstClaimant_def crowd_simps)
     (simp add: updateTerritories_def claimCells_def claimCell_def TERRITORY_GRID_def upt_16
        crowd_def plainTerritory_def shl1_def registerConflict_def conflictKey_def)

section \<open>One pending conflict for each colliding pair\<close>

text \<open>The pending map keeps its keys distinct through the whole pass.\<close>

lemma registerConflict_distinct:
  "distinct (map fst (conflictCache w)) \<Longrightarrow>
   distinct (map fst (conflictCache (registerConflict a b t w)))"
  by (simp add: registerConflict_def Let_def distinct_update)

lemma claimCell_distinct:
  "distinct (map fst (conflictCache w)) \<Longrightarrow> distinct (map fst (conflictCache (claimCell g w i)))"
  by (simp add: claimCell_def registerConflict_distinct)

lemma foldl_preserves:
  assumes "\<And>w x. P w \<Longrightarrow> P (f w x)" and "P w"
  shows "P (foldl f w xs)"
  using assms(2) by (induction xs arbitrary: w) (simp_all add: assms(1))

lemma updateTerritories_distinct:
  assumes "distinct (map fst (conflictCache w))"
  shows "distinct (map fst (conflictCache (updateTerritories w)))"
proof -
  have cells: "distinct (map fst (conflictCache (claimCells v g)))"
    if "distinct (map fst (conflictCache v))" for v g
    unfolding claimCells_def
    using claimCell_distinct that
    by (rule foldl_preserves [where P = "\<lambda>v. distinct (map fst (conflictCache v))"])
  from assms
  have "distinct (map fst (conflictCache (w\<lparr>territoryGrid := replicate TERRITORY_GRID None\<rparr>)))"
    by simp
  with cells show ?thesis
    unfolding updateTerritories_def
    by (rule foldl_preserves [where P = "\<lambda>v. distinct (map fst (conflictCache v))"])
qed

lemma one_entry:
  "distinct (map fst al) \<Longrightarrow> map_of al k = Some v \<Longrightarrow> filter (\<lambda>e. fst e = k) al = [(k, v)]"
proof (induction al)
  case Nil
  then show ?case by simp
next
  case (Cons e al)
  show ?case
  proof (cases "fst e = k")
    case True
    with Cons.prems have "k \<notin> fst ` set al" and "e = (k, v)" by (auto simp: prod_eq_iff)
    then have "filter (\<lambda>e. fst e = k) al = []" by (auto simp: filter_empty_conv)
    with True \<open>e = (k, v)\<close> show ?thesis by simp
  next
    case False
    with Cons show ?thesis by (cases e) auto
  qed
qed

lemma twoSlots_simps:
  "gangsters twoSlots = [1, 2]"
  "conflictCache twoSlots = []"
  "time twoSlots = 0"
  "claims twoSlots g i = (i mod 32 = 3 \<or> i mod 32 = 5)"
  "firstCommonSlot twoSlots a b = Some 3"
proof -
  have b: "bit (40 :: int) n = (n = 3 \<or> n = 5)" for n
  proof -
    have "(40 :: int) = 2 ^ 3 OR 2 ^ 5" by simp
    then show ?thesis by (simp only: bit_or_iff bit_exp_iff) auto
  qed
  show c: "claims twoSlots g i = (i mod 32 = 3 \<or> i mod 32 = 5)" for g i
    by (simp add: claims_bit twoSlots_def plainTerritory_def b)
  show "firstCommonSlot twoSlots a b = Some 3"
    by (simp add: firstCommonSlot_def c TERRITORY_GRID_def upt_16)
qed (simp_all add: twoSlots_def)

text \<open>
  Claim C4, as the code has it, for any number of gangsters. The query yields each
  gangster once and the pending map holds each key once. Take any slot of the grid whose
  first claimant in query order is not entity 0, and any other gangster that claims the
  slot: after detection the pending map holds exactly one PendingConflict under the key of
  that pair, on however many slots the two collide, since the key is the pair without the
  slot. A PendingConflict that the pass registers records a slot of the grid, and when
  that slot's first claimant is not entity 0 its key is the pair of that first claimant
  and a different claimant of the slot, so two later claimants of a slot get no
  PendingConflict for it. The keys of the map stay distinct.
\<close>

theorem one_conflict_per_pair:
  assumes "distinct (gangsters w)" and "distinct (map fst (conflictCache w))"
  shows "(\<forall>i < TERRITORY_GRID. \<forall>f g.
              firstClaimant w i = Some f \<and> f \<noteq> 0 \<and> g \<in> set (gangsters w) \<and> g \<noteq> f
                \<and> claims w g i \<longrightarrow>
              length (filter (\<lambda>e. fst e = conflictKey g f) (conflictCache (updateTerritories w))) = 1)
       \<and> (\<forall>key c. map_of (conflictCache (updateTerritories w)) key = Some c
                  \<and> map_of (conflictCache w) key \<noteq> Some c
                  \<and> firstClaimant w (territory c) \<noteq> Some 0 \<longrightarrow>
              territory c < TERRITORY_GRID
            \<and> (\<exists>f g. firstClaimant w (territory c) = Some f \<and> g \<in> set (gangsters w) \<and> g \<noteq> f
                     \<and> claims w g (territory c) \<and> key = conflictKey g f))
       \<and> distinct (map fst (conflictCache (updateTerritories w)))"
proof -
  note keys = updateTerritories_distinct [OF assms(2)]
  note summary = first_claimant_keeps_cell [OF assms(1)]
  have one: "length (filter (\<lambda>e. fst e = conflictKey g f) (conflictCache (updateTerritories w))) = 1"
    if "i < TERRITORY_GRID" and "firstClaimant w i = Some f \<and> f \<noteq> 0 \<and> g \<in> set (gangsters w)
         \<and> g \<noteq> f \<and> claims w g i" for i f g
  proof -
    from summary [THEN conjunct2, THEN conjunct2, rule_format, OF that]
    obtain c where "map_of (conflictCache (updateTerritories w)) (conflictKey g f) = Some c"
      by blast
    from one_entry [OF keys this] show ?thesis by simp
  qed
  from one summary [THEN conjunct2, THEN conjunct1] keys show ?thesis by blast
qed

text \<open>
  The theorem at three gangsters 1, 2 and 3 that all hold slot 3: one PendingConflict for
  the pair 2 and 1, one for the pair 3 and 1, none for the pair 3 and 2. And at the
  gangsters 1 and 2 that both hold slots 3 and 5: one PendingConflict for the pair.
\<close>

theorem one_conflict_per_pair_witness:
  "distinct (gangsters (crowd [1, 2, 3])) \<and> distinct (map fst (conflictCache (crowd [1, 2, 3])))
 \<and> length (filter (\<lambda>e. fst e = conflictKey 2 1) (conflictCache (updateTerritories (crowd [1, 2, 3])))) = 1
 \<and> length (filter (\<lambda>e. fst e = conflictKey 3 1) (conflictCache (updateTerritories (crowd [1, 2, 3])))) = 1
 \<and> map_of (conflictCache (updateTerritories (crowd [1, 2, 3]))) (conflictKey 3 2) = None
 \<and> distinct (gangsters twoSlots) \<and> distinct (map fst (conflictCache twoSlots))
 \<and> firstClaimant twoSlots 3 = Some 1 \<and> firstClaimant twoSlots 5 = Some 1
 \<and> length (filter (\<lambda>e. fst e = conflictKey 2 1) (conflictCache (updateTerritories twoSlots))) = 1"
proof -
  let ?w = "crowd [1, 2, 3]"
  have d: "distinct (gangsters ?w)" and k: "distinct (map fst (conflictCache ?w))"
    by (simp_all add: crowd_simps)
  note inst = one_conflict_per_pair [OF d k]
  note pairs = inst [THEN conjunct1, rule_format]
  note new = inst [THEN conjunct2, THEN conjunct1, rule_format]
  have slot: "3 < TERRITORY_GRID" "5 < TERRITORY_GRID" by (simp_all add: TERRITORY_GRID_def)
  have two: "length (filter (\<lambda>e. fst e = conflictKey 2 1) (conflictCache (updateTerritories ?w))) = 1"
    by (rule pairs [OF slot(1)]) (simp add: crowd_first crowd_simps)
  have three: "length (filter (\<lambda>e. fst e = conflictKey 3 1) (conflictCache (updateTerritories ?w))) = 1"
    by (rule pairs [OF slot(1)]) (simp add: crowd_first crowd_simps)
  have none: "map_of (conflictCache (updateTerritories ?w)) (conflictKey 3 2) = None"
  proof (cases "map_of (conflictCache (updateTerritories ?w)) (conflictKey 3 2)")
    case None
    then show ?thesis .
  next
    case (Some c)
    have "map_of (conflictCache (updateTerritories ?w)) (conflictKey 3 2) = Some c
            \<and> map_of (conflictCache ?w) (conflictKey 3 2) \<noteq> Some c
            \<and> firstClaimant ?w (territory c) \<noteq> Some 0"
      using Some by (simp add: crowd_simps crowd_first)
    from new [OF this]
    obtain f g where "firstClaimant ?w (territory c) = Some f" "conflictKey 3 2 = conflictKey g f"
      by blast
    then have False
      by (auto simp: crowd_first conflictKey_def split: if_splits)
    then show ?thesis ..
  qed
  have d2: "distinct (gangsters twoSlots)" and k2: "distinct (map fst (conflictCache twoSlots))"
    by (simp_all add: twoSlots_simps)
  have f3: "firstClaimant twoSlots 3 = Some 1" and f5: "firstClaimant twoSlots 5 = Some 1"
    by (simp_all add: firstClaimant_def twoSlots_simps)
  have both: "length (filter (\<lambda>e. fst e = conflictKey 2 1) (conflictCache (updateTerritories twoSlots))) = 1"
    by (rule one_conflict_per_pair [OF d2 k2, THEN conjunct1, rule_format, OF slot(2)])
       (simp add: f5 twoSlots_simps)
  from d k two three none d2 k2 f3 f5 both show ?thesis by blast
qed

text \<open>
  The claim fails in two ways. Gangsters 1 and 2 collide on slots 3 and 5 in the same
  tick, and the pending map ends with the single entry of slot 3: the key of the map is
  the pair alone, so the collision on slot 5 finds the pair registered and adds nothing.
  And of the three gangsters 1, 2 and 3 that all claim slot 3, the two later claimants 2
  and 3 get no PendingConflict: a claimant collides with the recorded occupant only.
\<close>

theorem second_slot_counterexample:
  "claims twoSlots 1 3 \<and> claims twoSlots 2 3 \<and> claims twoSlots 1 5 \<and> claims twoSlots 2 5
 \<and> conflictCache (updateTerritories twoSlots)
     = [((1, 2), \<lparr>territory = 3, startTime = 0, lastUpdate = 0\<rparr>)]
 \<and> filter (\<lambda>e. territory (snd e) = 5) (conflictCache (updateTerritories twoSlots)) = []
 \<and> claims (crowd [1, 2, 3]) 2 3 \<and> claims (crowd [1, 2, 3]) 3 3
 \<and> conflictCache (updateTerritories (crowd [1, 2, 3]))
     = [((1, 2), \<lparr>territory = 3, startTime = 0, lastUpdate = 0\<rparr>),
        ((1, 3), \<lparr>territory = 3, startTime = 0, lastUpdate = 0\<rparr>)]
 \<and> filter (\<lambda>e. fst e = conflictKey 2 3) (conflictCache (updateTerritories (crowd [1, 2, 3]))) = []"
proof -
  have pair: "conflictCache (updateTerritories twoSlots)
     = [((1, 2), \<lparr>territory = 3, startTime = 0, lastUpdate = 0\<rparr>)]"
    by (simp add: updateTerritories_def claimCells_def claimCell_def TERRITORY_GRID_def upt_16
        twoSlots_def plainTerritory_def shl1_def registerConflict_def conflictKey_def)
  have trio: "conflictCache (updateTerritories (crowd [1, 2, 3]))
     = [((1, 2), \<lparr>territory = 3, startTime = 0, lastUpdate = 0\<rparr>),
        ((1, 3), \<lparr>territory = 3, startTime = 0, lastUpdate = 0\<rparr>)]"
    by (simp add: updateTerritories_def claimCells_def claimCell_def TERRITORY_GRID_def upt_16
        crowd_def plainTerritory_def shl1_def registerConflict_def conflictKey_def)
  show ?thesis
    unfolding pair trio by (simp add: twoSlots_simps crowd_simps conflictKey_def)
qed

section \<open>Two gangsters claiming common slots\<close>

text \<open>
  The first gangster of the query fills the cleared grid with its own claims; the second
  then meets the first on every common slot, and only the first meeting registers.
\<close>

lemma first_pass:
  assumes "territoryGrid w0 = replicate TERRITORY_GRID None"
  shows "k \<le> TERRITORY_GRID \<Longrightarrow>
     \<exists>G. length G = TERRITORY_GRID
        \<and> (\<forall>i < TERRITORY_GRID. G ! i = (if i < k \<and> claims w0 a i then Some a else None))
        \<and> foldl (claimCell a) w0 [0..<k] = w0\<lparr>territoryGrid := G\<rparr>"
proof (induction k)
  case 0
  with assms show ?case by (intro exI [of _ "territoryGrid w0"]) simp
next
  case (Suc k)
  then obtain G where G: "length G = TERRITORY_GRID"
      "\<And>i. i < TERRITORY_GRID \<Longrightarrow> G ! i = (if i < k \<and> claims w0 a i then Some a else None)"
      "foldl (claimCell a) w0 [0..<k] = w0\<lparr>territoryGrid := G\<rparr>"
    by auto
  from Suc.prems have k: "k < TERRITORY_GRID" by simp
  have step: "foldl (claimCell a) w0 [0..<Suc k] = claimCell a (w0\<lparr>territoryGrid := G\<rparr>) k"
    by (simp add: G(3))
  show ?case
  proof (cases "claims w0 a k")
    case True
    then have "claimCell a (w0\<lparr>territoryGrid := G\<rparr>) k = w0\<lparr>territoryGrid := G[k := Some a]\<rparr>"
      using G(2) [OF k] by (simp add: claimCell_def claims_def)
    with G k True show ?thesis
      unfolding step by (intro exI [of _ "G[k := Some a]"]) (simp add: nth_list_update less_Suc_eq)
  next
    case False
    then have "claimCell a (w0\<lparr>territoryGrid := G\<rparr>) k = w0\<lparr>territoryGrid := G\<rparr>"
      by (simp add: claimCell_def claims_def)
    with G k False show ?thesis
      unfolding step by (intro exI [of _ G]) (auto simp add: less_Suc_eq)
  qed
qed

lemma second_pass:
  assumes G: "length G = TERRITORY_GRID"
      "\<And>i. i < TERRITORY_GRID \<Longrightarrow> G ! i = (if claims w0 a i then Some a else None)"
    and a: "a \<noteq> 0"
  shows "k \<le> TERRITORY_GRID \<Longrightarrow>
     \<exists>G'. foldl (claimCell b) (w0\<lparr>territoryGrid := G\<rparr>) [0..<k] =
            (case find (\<lambda>i. claims w0 a i \<and> claims w0 b i) [0..<k] of
               None \<Rightarrow> w0 | Some L \<Rightarrow> registerConflict b a L w0)\<lparr>territoryGrid := G'\<rparr>
        \<and> length G' = TERRITORY_GRID
        \<and> (\<forall>i < TERRITORY_GRID. claims w0 a i \<longrightarrow> G' ! i = Some a)
        \<and> (\<forall>i < TERRITORY_GRID. k \<le> i \<longrightarrow> G' ! i = G ! i)"
proof (induction k)
  case 0
  with G show ?case by (intro exI [of _ G]) simp
next
  case (Suc k)
  let ?X = "case find (\<lambda>i. claims w0 a i \<and> claims w0 b i) [0..<k] of
               None \<Rightarrow> w0 | Some L \<Rightarrow> registerConflict b a L w0"
  from Suc obtain G' where G': "foldl (claimCell b) (w0\<lparr>territoryGrid := G\<rparr>) [0..<k] = ?X\<lparr>territoryGrid := G'\<rparr>"
      "length G' = TERRITORY_GRID"
      "\<And>i. i < TERRITORY_GRID \<Longrightarrow> claims w0 a i \<Longrightarrow> G' ! i = Some a"
      "\<And>i. i < TERRITORY_GRID \<Longrightarrow> k \<le> i \<Longrightarrow> G' ! i = G ! i"
    by auto
  from Suc.prems have k: "k < TERRITORY_GRID" by simp
  have tcX: "territoryControl ?X = territoryControl w0"
    by (simp split: option.splits)
  have cell: "G' ! k = (if claims w0 a k then Some a else None)"
    using G'(4) [OF k] G(2) [OF k] by simp
  have step: "foldl (claimCell b) (w0\<lparr>territoryGrid := G\<rparr>) [0..<Suc k]
                = claimCell b (?X\<lparr>territoryGrid := G'\<rparr>) k"
    by (simp add: G'(1))
  have clb: "(territories (territoryControl ?X b) AND shl1 k \<noteq> 0) = claims w0 b k"
    by (subst tcX) (simp add: claims_def)
  consider (skip) "\<not> claims w0 b k" | (free) "claims w0 b k" "\<not> claims w0 a k"
    | (both) "claims w0 b k" "claims w0 a k" by blast
  then show ?case
  proof cases
    case skip
    then have "claimCell b (?X\<lparr>territoryGrid := G'\<rparr>) k = ?X\<lparr>territoryGrid := G'\<rparr>"
      using clb by (simp add: claimCell_def)
    with G' k skip show ?thesis
      unfolding step by (intro exI [of _ G']) (simp add: find_snoc split: option.splits)
  next
    case free
    then have "claimCell b (?X\<lparr>territoryGrid := G'\<rparr>) k = ?X\<lparr>territoryGrid := G'[k := Some b]\<rparr>"
      using clb cell by (simp add: claimCell_def)
    with G' k free show ?thesis
      unfolding step
      by (intro exI [of _ "G'[k := Some b]"]) (auto simp add: find_snoc nth_list_update split: option.splits)
  next
    case both
    then have "claimCell b (?X\<lparr>territoryGrid := G'\<rparr>) k
                 = (registerConflict b a k ?X)\<lparr>territoryGrid := G'\<rparr>"
      using clb cell a by (simp add: claimCell_def registerConflict_grid)
    also have "registerConflict b a k ?X =
           (case find (\<lambda>i. claims w0 a i \<and> claims w0 b i) [0..<Suc k] of
               None \<Rightarrow> w0 | Some L \<Rightarrow> registerConflict b a L w0)"
      using both by (simp add: find_snoc registerConflict_again split: option.splits)
    finally show ?thesis
      unfolding step using G' by (intro exI [of _ G']) simp
  qed
qed

lemma two_claimants_state:
  assumes "gangsters w = [a, b]" and "a \<noteq> 0"
  shows "\<exists>G. updateTerritories w =
           (case firstCommonSlot w a b of
              None \<Rightarrow> w | Some L \<Rightarrow> registerConflict b a L w)\<lparr>territoryGrid := G\<rparr>"
proof -
  let ?w0 = "w\<lparr>territoryGrid := replicate TERRITORY_GRID None\<rparr>"
  have cl: "claims ?w0 = claims w" by (simp add: claims_def fun_eq_iff)
  from first_pass [of ?w0 TERRITORY_GRID a]
  obtain G where G: "length G = TERRITORY_GRID"
      "\<And>i. i < TERRITORY_GRID \<Longrightarrow> G ! i = (if claims ?w0 a i then Some a else None)"
      "foldl (claimCell a) ?w0 [0..<TERRITORY_GRID] = ?w0\<lparr>territoryGrid := G\<rparr>"
    by auto
  from second_pass [OF G(1,2) assms(2), of TERRITORY_GRID b]
  obtain G' where "foldl (claimCell b) (?w0\<lparr>territoryGrid := G\<rparr>) [0..<TERRITORY_GRID] =
            (case find (\<lambda>i. claims ?w0 a i \<and> claims ?w0 b i) [0..<TERRITORY_GRID] of
               None \<Rightarrow> ?w0 | Some L \<Rightarrow> registerConflict b a L ?w0)\<lparr>territoryGrid := G'\<rparr>"
    by auto
  then have "updateTerritories w =
           (case firstCommonSlot w a b of
              None \<Rightarrow> w | Some L \<Rightarrow> registerConflict b a L w)\<lparr>territoryGrid := G'\<rparr>"
    using assms(1) G(3)
    by (simp add: updateTerritories_def claimCells_def firstCommonSlot_def cl registerConflict_grid
          split: option.splits)
  then show ?thesis ..
qed

text \<open>
  When the query yields exactly two gangsters, the first with a non-zero id, and no
  conflict of the pair is pending, the pass adds exactly one entry to the pending map: its
  key is the pair, its slot is the lowest grid cell both claim, its two ticks are the
  current tick, and both gangs get the conflict flag of that slot. With no common slot the
  map is unchanged.
\<close>

lemma two_claimants_cache:
  assumes "gangsters w = [a, b]" and "a \<noteq> 0"
    and "map_of (conflictCache w) (conflictKey a b) = None"
  shows "conflictCache (updateTerritories w) =
           (case firstCommonSlot w a b of
              None \<Rightarrow> conflictCache w
            | Some L \<Rightarrow> conflictCache w
                 @ [(conflictKey a b, \<lparr>territory = L, startTime = time w, lastUpdate = time w\<rparr>)])
       \<and> (\<forall>g. activeConflicts (warfareState (updateTerritories w) g) =
            (case firstCommonSlot w a b of
               None \<Rightarrow> activeConflicts (warfareState w g)
             | Some L \<Rightarrow> if g = a \<or> g = b then activeConflicts (warfareState w g) OR shl1 L
                         else activeConflicts (warfareState w g)))"
proof -
  from two_claimants_state [OF assms(1,2)] obtain G where
    state: "updateTerritories w =
       (case firstCommonSlot w a b of None \<Rightarrow> w | Some L \<Rightarrow> registerConflict b a L w)
       \<lparr>territoryGrid := G\<rparr>"
    by blast
  from assms(3) have absent: "map_of (conflictCache w) (conflictKey b a) = None"
    by (simp add: conflictKey_commute [of b a])
  show ?thesis
  proof (cases "firstCommonSlot w a b")
    case None
    with state show ?thesis by simp
  next
    case (Some L)
    with state have "updateTerritories w = (registerConflict b a L w)\<lparr>territoryGrid := G\<rparr>"
      by simp
    with Some registerConflict_new [OF absent, of L] show ?thesis
      by (auto simp add: conflictKey_commute [of b a])
  qed
qed

section \<open>War strength\<close>

lemma and_one_bit_0: "(m AND 1 \<noteq> 0) = bit (m :: ui32) 0"
  by (simp add: and_one_eq bit_0 mod2_eq_if)

lemma signed_drop_bit_positive: "\<not> bit (m :: ui32) 31 \<Longrightarrow> signed_drop_bit 1 m = drop_bit 1 m"
  by (rule bit_word_eqI) (auto simp: bit_signed_drop_bit_iff bit_drop_bit_eq dest: bit_imp_le_length)

lemma drop_bit_decreases: "(m :: ui32) \<noteq> 0 \<Longrightarrow> unat (drop_bit 1 m) < unat m"
  by (simp add: drop_bit_eq_div unat_div unat_gt_0)

lemma drop_bit_clears_sign: "\<not> bit (drop_bit 1 (m :: ui32)) 31"
  by (simp add: bit_drop_bit_eq bit_word_iff_drop_bit_and) 

lemma set_bits_split: "{i. bit (m :: ui32) i} = (if bit m 0 then {0} else {}) \<union> Suc ` {i. bit (drop_bit 1 m) i}"
proof (rule set_eqI)
  fix x show "x \<in> {i. bit m i} \<longleftrightarrow> x \<in> (if bit m 0 then {0} else {}) \<union> Suc ` {i. bit (drop_bit 1 m) i}"
    by (cases x) (auto simp: bit_drop_bit_eq image_iff)
qed

lemma allyLoop_sum:
  "\<not> bit m 31 \<Longrightarrow> allyLoop f m n s = Some (s + (\<Sum>i | bit m i. f (n + i)))"
proof (induction m arbitrary: n s rule: measure_induct_rule [of unat])
  case (less m)
  show ?case
  proof (cases "m = 0")
    case True
    then show ?thesis by (simp add: allyLoop.simps)
  next
    case False
    let ?d = "drop_bit 1 m"
    have ih: "allyLoop f ?d (n + 1) s' = Some (s' + (\<Sum>i | bit ?d i. f (n + 1 + i)))" for s'
      using less.IH [OF drop_bit_decreases [OF False] drop_bit_clears_sign] .
    have sum: "(\<Sum>i | bit m i. f (n + i)) = (if bit m 0 then f n else 0) + (\<Sum>i | bit ?d i. f (n + 1 + i))"
      apply (subst set_bits_split)
      apply (subst sum.union_disjoint)
         apply (auto simp: sum.reindex)
      done
    have "allyLoop f m n s = allyLoop f ?d (n + 1) (if bit m 0 then s + f n else s)"
      using False less.prems by (subst allyLoop.simps) (simp add: signed_drop_bit_positive [unfolded One_nat_def] and_one_bit_0)
    with ih [of "s + f n"] ih [of s] show ?thesis by (simp add: sum add.assoc)
  qed
qed

text \<open>
  With bit 31 set the mask never becomes 0 (the shift keeps the sign bit), so the loop
  has no result.
\<close>

lemma allyLoop_sign_bit:
  assumes "allyLoop f m n s = Some r"
  shows "\<not> bit m 31"
proof (rule allyLoop.raw_induct [where P = "\<lambda>f m n s r. \<not> bit m 31", OF _ assms])
  fix loop and contrib :: "nat \<Rightarrow> real" and allyMask :: ui32 and allyCount :: nat
    and strength result :: real
  assume ih: "\<And>contrib allyMask allyCount strength y.
      loop contrib allyMask allyCount strength = Some y \<Longrightarrow> \<not> bit allyMask 31"
    and step: "(if allyMask = 0 then Some strength
      else loop contrib (signed_drop_bit 1 allyMask) (allyCount + 1)
            (if allyMask AND 1 \<noteq> 0 then strength + contrib allyCount else strength))
      = Some result"
  show "\<not> bit allyMask 31"
  proof (cases "allyMask = 0")
    case True
    then show ?thesis by simp
  next
    case False
    with step ih have "\<not> bit (signed_drop_bit 1 allyMask) 31" by (auto split: if_splits)
    then show ?thesis by (simp add: bit_signed_drop_bit_iff)
  qed
qed

lemma allyLoop_diverges: "bit m 31 \<Longrightarrow> allyLoop f m n s = None"
  using allyLoop_sign_bit [of f m n s] by (cases "allyLoop f m n s") auto

lemma foldl_plus: "foldl (\<lambda>sum s. sum + s) (a :: real) xs = a + sum_list xs"
  by (induction xs arbitrary: a) simp_all

text \<open>
  Claim C2, as the code has it. For a party whose \<open>allies\<close> mask has bit 31 clear, the
  strength is (base capability + the sum of the contributions of the allies whose bit is
  set) times (1 + the sum of all stability entries divided by 16) times (1 + reputation
  times 0.2). The ally contributions are added to the base, not multiplied with it, and
  the stability sum runs over the whole array and is divided by the constant 16, whichever
  slots the party holds.
\<close>

theorem calculateWarStrength_formula:
  assumes "\<not> bit (allies (warfareState w g)) 31"
  shows "calculateWarStrength getAllyContribution w g =
           Some ((warStrength (warfareState w g)
                    + (\<Sum>i | bit (allies (warfareState w g)) i. getAllyContribution g i))
                 * (1 + sum_list (stability (territoryControl w g)) / 16)
                 * (1 + reputation (warfareState w g) * 0.2))"
  using allyLoop_sum [OF assms, of "getAllyContribution g" 0 "warStrength (warfareState w g)"]
  by (simp add: calculateWarStrength_def Let_def foldl_plus)

text \<open>
  The theorem at the gangster of \<open>allied\<close>: base 2 and one ally contributing 1 give 3.
\<close>

theorem calculateWarStrength_formula_witness:
  "\<not> bit (allies (warfareState allied 1)) 31
 \<and> calculateWarStrength unitAllyContribution allied 1 = Some 3"
proof -
  have clear: "\<not> bit (allies (warfareState allied 1)) 31"
    by (simp add: allied_def plainWarfare_def)
  have "{i. bit (1 :: ui32) i} = {0}"
    by (auto simp: bit_1_iff)
  then have "(\<Sum>i | bit (1 :: ui32) i. unitAllyContribution 1 i) = 1"
    by (simp add: unitAllyContribution_def)
  with calculateWarStrength_formula [OF clear, of unitAllyContribution] clear show ?thesis
    by (simp add: allied_def plainWarfare_def plainTerritory_def)
qed

text \<open>
  The claim's formula fails twice. In \<open>allied\<close> (base 2, one ally contributing 1, nothing
  else) the code gives 2 + 1 = 3 where the claim's product gives 2 * (1 + 1) = 4. In
  \<open>steady\<close> (base 2, slot 0 held with stability 1, the other fifteen entries 0) the code
  gives 2 * (1 + 1/16) where the average over the held slots gives 2 * (1 + 1) = 4.
\<close>

theorem strength_counterexample:
  "calculateWarStrength unitAllyContribution allied 1 = Some 3
 \<and> specStrength unitAllyContribution allied 1 = 4
 \<and> calculateWarStrength noAllyContribution steady 1 = Some (17 / 8)
 \<and> specStrength noAllyContribution steady 1 = 4"
  by (simp add: calculateWarStrength_def specStrength_def averageHeldStability_def heldSlots_def
      allied_def steady_def plainWarfare_def plainTerritory_def unitAllyContribution_def
      noAllyContribution_def allyLoop.simps upt_16 upt_rec [of _ 32])

section \<open>Conflict resolution\<close>

lemma strength_duel:
  "calculateWarStrength noAllyContribution (duel s1 s2 gs) g = Some (if g = 1 then s1 else s2)"
  by (simp add: calculateWarStrength_def duel_def plainWarfare_def plainTerritory_def allyLoop.simps)

text \<open>
  What the method declared as \<open>resolveTerrritorialDispute\<close> does when it is called with
  two different gangs and one of them as the winner: everything the specification lists
  for a decided conflict, up to the removal of the entry, which is the caller's.
\<close>

lemma resolveTerrritorialDispute_effect:
  fixes w :: TerritorySystem and t :: nat and gang1 gang2 winner :: entity
  assumes "gang1 \<noteq> gang2" and "winner = gang1 \<or> winner = gang2"
  defines "loser \<equiv> (if winner = gang1 then gang2 else gang1)"
  defines "w' \<equiv> resolveTerrritorialDispute gang1 gang2 t winner w"
  shows "territories (territoryControl w' loser) = territories (territoryControl w loser) AND NOT (shl1 t)"
    and "territories (territoryControl w' winner) = territories (territoryControl w winner) OR shl1 t"
    and "victories (warfareState w' winner) = victories (warfareState w winner) + 1"
    and "casualties (warfareState w' loser) = casualties (warfareState w loser) + 1"
    and "reputation (warfareState w' winner) = min 1 (reputation (warfareState w winner) + 0.1)"
    and "reputation (warfareState w' loser) = reputation (warfareState w loser) * 0.8"
    and "activeConflicts (warfareState w' gang1) = activeConflicts (warfareState w gang1) AND NOT (shl1 t)"
    and "activeConflicts (warfareState w' gang2) = activeConflicts (warfareState w gang2) AND NOT (shl1 t)"
    and "conflictCache w' = conflictCache w"
  using assms(1,2) unfolding loser_def w'_def
  by (auto simp add: resolveTerrritorialDispute_def updateWarReputation_def Let_def)

text \<open>
  The loop body never reaches that method: for every mature conflict whose strengths
  differ by more than \<open>MIN_STRENGTH\<close> it ends in the TypeError of the misspelt call, before
  any transfer and before \<open>conflictCache.delete\<close>.
\<close>

lemma resolveConflict_dispute:
  assumes "time w - lastUpdate c > 100"
    and "calculateWarStrength gac w (fst key) = Some s1"
    and "calculateWarStrength gac w (snd key) = Some s2"
    and "\<bar>s1 - s2\<bar> > MIN_STRENGTH"
  shows "resolveConflict gac (key, c) w
           = Some (Inl (TypeError ''this.resolveTerritorialDispute is not a function''))"
  using assms by (simp add: resolveConflict_def resolveTerritorialDispute_def)

text \<open>
  Claim C1 at a concrete mature conflict: gangs 1 and 2 dispute slot 3 since tick 0, it is
  tick 101, and their strengths are 10 and 7, which differ by more than the threshold
  0.3. The claim has gang 1 win, the slot bit, counters, reputations and flags change and
  the entry leave the map. The code throws instead, with the state as it was and the entry
  still pending.
\<close>

theorem dispute_throws:
  "calculateWarStrength noAllyContribution (duel 10 7 [1, 2]) 1 = Some 10
 \<and> calculateWarStrength noAllyContribution (duel 10 7 [1, 2]) 2 = Some 7
 \<and> resolveConflicts noAllyContribution (duel 10 7 [1, 2])
     = Some (Inl (TypeError ''this.resolveTerritorialDispute is not a function''))"
  by (simp add: resolveConflicts_def resolveConflict_def strength_duel resolveTerritorialDispute_def
      MIN_STRENGTH_def duel_simps)

text \<open>
  The stalemate branch of the loop body, in the exact arithmetic of the model: for a
  mature pending conflict whose two strengths differ by \<open>MIN_STRENGTH\<close> or less the body
  returns normally, no party's slot bits change, the entry's \<open>lastUpdate\<close> is the current
  tick (its slot and \<open>startTime\<close> are kept) and the pending map has the same keys in the
  same order.
\<close>

lemma stalemate_refreshes:
  assumes "time w - lastUpdate c > 100"
    and "map_of (conflictCache w) key = Some c"
    and "calculateWarStrength gac w (fst key) = Some s1"
    and "calculateWarStrength gac w (snd key) = Some s2"
    and "\<bar>s1 - s2\<bar> \<le> MIN_STRENGTH"
  shows "\<exists>w'. resolveConflict gac (key, c) w = Some (Inr w')
            \<and> (\<forall>g. territories (territoryControl w' g) = territories (territoryControl w g))
            \<and> map_of (conflictCache w') key = Some (c\<lparr>lastUpdate := time w\<rparr>)
            \<and> map fst (conflictCache w') = map fst (conflictCache w)"
proof -
  from assms(2) have "key \<in> fst ` set (conflictCache w)"
    by (metis domI dom_map_of_conv_image_fst)
  with assms show ?thesis
    by (simp add: resolveConflict_def handleStalemate_def Let_def update_conv' update_keys)
qed

lemma twoWars_simps:
  "time twoWars = 101"
  "conflictCache twoWars = [((1, 2), \<lparr>territory = 3, startTime = 0, lastUpdate = 0\<rparr>),
                            ((3, 4), \<lparr>territory = 5, startTime = 0, lastUpdate = 0\<rparr>)]"
  by (simp_all add: twoWars_def)

lemma strength_twoWars:
  "calculateWarStrength noAllyContribution twoWars g
     = Some (if g = 1 then 10 else if g = 2 then 7 else 1)"
  by (simp add: calculateWarStrength_def twoWars_def plainWarfare_def plainTerritory_def
      allyLoop.simps)

text \<open>
  Claim C3 at a pass over two mature conflicts: the pending map holds first the conflict
  of gangs 1 and 2 on slot 3, whose strengths 10 and 7 differ by more than the threshold,
  and then the conflict of gangs 3 and 4 on slot 5, whose strengths are both 1; both were
  last updated at tick 0 and it is tick 101. The claim has the second conflict end in a
  stalemate with its \<open>lastUpdate\<close> refreshed to 101, and that is what the loop body does
  when it is run on that entry. The pass never runs it: at the first entry the misspelt
  call of line 124 throws, \<open>resolveConflicts\<close> ends in the TypeError, and the tie of gangs
  3 and 4 keeps the \<open>lastUpdate\<close> 0 it had.
\<close>

theorem tie_never_refreshed:
  "conflictCache twoWars = [((1, 2), \<lparr>territory = 3, startTime = 0, lastUpdate = 0\<rparr>),
                            ((3, 4), \<lparr>territory = 5, startTime = 0, lastUpdate = 0\<rparr>)]
 \<and> time twoWars - lastUpdate \<lparr>territory = 5, startTime = 0, lastUpdate = 0\<rparr> > 100
 \<and> calculateWarStrength noAllyContribution twoWars 3 = Some 1
 \<and> calculateWarStrength noAllyContribution twoWars 4 = Some 1
 \<and> (\<exists>w'. resolveConflict noAllyContribution ((3, 4), \<lparr>territory = 5, startTime = 0, lastUpdate = 0\<rparr>)
             twoWars = Some (Inr w')
        \<and> map_of (conflictCache w') (3, 4) = Some \<lparr>territory = 5, startTime = 0, lastUpdate = 101\<rparr>)
 \<and> resolveConflicts noAllyContribution twoWars
     = Some (Inl (TypeError ''this.resolveTerritorialDispute is not a function''))"
proof -
  let ?c = "\<lparr>territory = 5, startTime = 0, lastUpdate = 0\<rparr>"
  have mature: "time twoWars - lastUpdate ?c > 100"
    and pending: "map_of (conflictCache twoWars) (3, 4) = Some ?c"
    and s3: "calculateWarStrength noAllyContribution twoWars (fst (3, 4)) = Some 1"
    and s4: "calculateWarStrength noAllyContribution twoWars (snd (3, 4)) = Some 1"
    and tie: "\<bar>1 - 1 :: real\<bar> \<le> MIN_STRENGTH"
    by (simp_all add: twoWars_simps strength_twoWars MIN_STRENGTH_def)
  from stalemate_refreshes [OF mature pending s3 s4 tie]
  have body: "\<exists>w'. resolveConflict noAllyContribution ((3, 4), ?c) twoWars = Some (Inr w')
        \<and> map_of (conflictCache w') (3, 4) = Some \<lparr>territory = 5, startTime = 0, lastUpdate = 101\<rparr>"
    by (auto simp add: twoWars_simps)
  have pass: "resolveConflicts noAllyContribution twoWars
     = Some (Inl (TypeError ''this.resolveTerritorialDispute is not a function''))"
    by (simp add: resolveConflicts_def resolveConflict_def strength_twoWars
        resolveTerritorialDispute_def MIN_STRENGTH_def twoWars_simps)
  from mature s3 s4 body pass show ?thesis
    by (simp add: twoWars_simps)
qed






section \<open>Succession candidates\<close>

lemma findViableSuccessors_sorted:
  "sorted_wrt (\<lambda>c d. support c \<ge> support d) (findViableSuccessors m w v agents)"
proof -
  have "sorted (map (\<lambda>c. - support c) (findViableSuccessors m w v agents))"
    by (simp add: findViableSuccessors_def)
  then show ?thesis by (simp add: sorted_map sorted_wrt_iff_nth_less)
qed

text \<open>
  Claim C7, as the code has it. The candidates are enumerated with the viable designated
  successors first, in the order of the succession list, and the viable other agents
  after them, in query order; the result holds exactly these candidates, sorted by
  descending support; and candidates of equal support keep their order of enumeration
  (the sort is stable and compares nothing but the support), whatever their entity ids.
\<close>

theorem findViableSuccessors_order:
  "sorted_wrt (\<lambda>c d. support c \<ge> support d) (findViableSuccessors m w v agents)
 \<and> mset (findViableSuccessors m w v agents)
      = mset (designatedCandidates m w v agents @ claimantCandidates m w v agents)
 \<and> (\<forall>s. filter (\<lambda>c. support c = s) (findViableSuccessors m w v agents)
        = filter (\<lambda>c. support c = s) (designatedCandidates m w v agents)
          @ filter (\<lambda>c. support c = s) (claimantCandidates m w v agents))
 \<and> map candAgent (designatedCandidates m w v agents)
      = filter (\<lambda>s. s \<noteq> 0 \<and> isViableSuccessor m w s (powerStructure w s) v)
          (succession (powerStructure w (agent v)))
 \<and> map candAgent (claimantCandidates m w v agents)
      = filter (\<lambda>a. a \<notin> set (succession (powerStructure w (agent v)))
                   \<and> isViableClaimant m w a (powerStructure w a) v) agents"
proof (intro conjI allI)
  show "sorted_wrt (\<lambda>c d. support c \<ge> support d) (findViableSuccessors m w v agents)"
    by (rule findViableSuccessors_sorted)
  show "mset (findViableSuccessors m w v agents)
      = mset (designatedCandidates m w v agents @ claimantCandidates m w v agents)"
    by (simp add: findViableSuccessors_def)
  fix s
  have "filter (\<lambda>c. support c = s) (findViableSuccessors m w v agents)
      = filter (\<lambda>c. - support c = - s) (sort_key (\<lambda>c. - support c)
          (designatedCandidates m w v agents @ claimantCandidates m w v agents))"
    by (simp add: findViableSuccessors_def)
  also have "\<dots> = filter (\<lambda>c. - support c = - s)
          (designatedCandidates m w v agents @ claimantCandidates m w v agents)"
    by (rule sort_key_stable)
  finally show "filter (\<lambda>c. support c = s) (findViableSuccessors m w v agents)
        = filter (\<lambda>c. support c = s) (designatedCandidates m w v agents)
          @ filter (\<lambda>c. support c = s) (claimantCandidates m w v agents)"
    by simp
  show "map candAgent (designatedCandidates m w v agents)
      = filter (\<lambda>s. s \<noteq> 0 \<and> isViableSuccessor m w s (powerStructure w s) v)
          (succession (powerStructure w (agent v)))"
    by (simp add: designatedCandidates_def comp_def)
  show "map candAgent (claimantCandidates m w v agents)
      = filter (\<lambda>a. a \<notin> set (succession (powerStructure w (agent v)))
                   \<and> isViableClaimant m w a (powerStructure w a) v) agents"
    by (simp add: claimantCandidates_def comp_def)
qed

text \<open>
  The tie-break of the claim fails: with the succession list 5, 3 and equal supports the
  result lists agent 5 before agent 3, which is not the specification's order.
\<close>

theorem tie_counterexample:
  "map candAgent (findViableSuccessors plainMethods (court [5, 3, 0, 0]) throne [1, 3, 5]) = [5, 3]
 \<and> map support (findViableSuccessors plainMethods (court [5, 3, 0, 0]) throne [1, 3, 5]) = [1, 1]
 \<and> \<not> specCandidateOrder (findViableSuccessors plainMethods (court [5, 3, 0, 0]) throne [1, 3, 5])"
  by (simp add: findViableSuccessors_def designatedCandidates_def claimantCandidates_def
      plainMethods_def court_def throne_def specCandidateOrder_def)

section \<open>Power collapse\<close>

lemma detect_throne: "detectPowerVacuums (court ss) [1, 2] = [throne]"
  by (simp add: detectPowerVacuums_def court_def throne_def)

lemma demote_uint: "uint (word_of_int (max 0 (uint (x :: ui8) - 1)) :: ui8) = max 0 (uint x - 1)"
proof -
  have "uint x < 256" using uint_bounded [of x] by simp
  moreover have "0 \<le> uint x" by simp
  ultimately have "0 \<le> max 0 (uint x - 1)" "max 0 (uint x - 1) < 2 ^ 8" by auto
  then show ?thesis by (simp add: uint_word_of_int take_bit_int_eq_self del: max.bounded_iff)
qed

lemma collapseAgent_rank:
  assumes "keepsRanks m"
  shows "uint (leaderPosition (powerStructure (collapseAgent m w a) b))
           = (if b = a then max 0 (uint (leaderPosition (powerStructure w b)) - 1)
              else uint (leaderPosition (powerStructure w b)))"
    and "stabilityFactor (powerStructure (collapseAgent m w a) b)
           = (if b = a then stabilityFactor (powerStructure w b) * 0.5
              else stabilityFactor (powerStructure w b))"
  using assms
  by (simp_all add: keepsRanks_def collapseAgent_def Let_def modPower_def demote_uint
      del: max.bounded_iff)

lemma collapse_loop:
  assumes "keepsRanks m" and "distinct xs"
  shows "uint (leaderPosition (powerStructure (foldl (collapseAgent m) w xs) b))
           = (if b \<in> set xs then max 0 (uint (leaderPosition (powerStructure w b)) - 1)
              else uint (leaderPosition (powerStructure w b)))
       \<and> stabilityFactor (powerStructure (foldl (collapseAgent m) w xs) b)
           = (if b \<in> set xs then stabilityFactor (powerStructure w b) * 0.5
              else stabilityFactor (powerStructure w b))"
  using assms(2)
proof (induction xs arbitrary: w)
  case Nil
  then show ?case by simp
next
  case (Cons x xs)
  then have d: "distinct xs" and nx: "x \<notin> set xs" by simp_all
  show ?case
    using Cons.IH [OF d, of "collapseAgent m w x"] nx
    by (auto simp: collapseAgent_rank [OF assms(1)])
qed

lemma no_candidates:
  assumes "set (succession (powerStructure w (agent v))) \<subseteq> {0}"
    and "filter (\<lambda>a. isViableClaimant m w a (powerStructure w a) v) agents = []"
  shows "findViableSuccessors m w v agents = []"
proof -
  from assms(1) have "designatedCandidates m w v agents = []"
    by (auto simp: designatedCandidates_def filter_empty_conv)
  moreover from assms(2) have "claimantCandidates m w v agents = []"
    by (auto simp: claimantCandidates_def filter_empty_conv)
  ultimately show ?thesis by (simp add: findViableSuccessors_def)
qed

text \<open>
  Claim C6, as the code has it. For a vacuum whose holder has no designated successor
  (every succession slot is 0) and for which no agent is a viable claimant, the engine
  takes the collapse branch. Provided that the affected agents are distinct and that the
  undefined \<open>forceConspiracyRealignment\<close> leaves ranks and stability factors alone, every
  affected agent's rank becomes \<open>max(0, rank - 1)\<close>, one less when it was positive and
  still 0 when it was 0, and its stability factor is halved; every other agent keeps
  both.
\<close>

theorem power_collapse:
  assumes "set (succession (powerStructure w (agent v))) \<subseteq> {0}"
    and "filter (\<lambda>a. isViableClaimant m w a (powerStructure w a) v) agents = []"
    and "distinct (findAffectedAgents m w v agents)"
    and "keepsRanks m"
  shows "handleVacuum m agents w v = handlePowerCollapse m v agents w
       \<and> uint (leaderPosition (powerStructure (handleVacuum m agents w v) b))
           = (if b \<in> set (findAffectedAgents m w v agents)
              then max 0 (uint (leaderPosition (powerStructure w b)) - 1)
              else uint (leaderPosition (powerStructure w b)))
       \<and> stabilityFactor (powerStructure (handleVacuum m agents w v) b)
           = (if b \<in> set (findAffectedAgents m w v agents)
              then stabilityFactor (powerStructure w b) * 0.5
              else stabilityFactor (powerStructure w b))"
proof -
  have h: "handleVacuum m agents w v = handlePowerCollapse m v agents w"
    by (simp add: handleVacuum_def no_candidates [OF assms(1,2)])
  from collapse_loop [OF assms(4,3), of w b] show ?thesis
    unfolding h handlePowerCollapse_def by simp
qed

lemma keepsRanks_plain: "keepsRanks plainMethods"
  by (simp add: keepsRanks_def plainMethods_def)

text \<open>
  The theorem at the vacuum of agent 1 (position 2, no successors) among agents 1 and 2:
  agent 1 goes from rank 2 to rank 1, both stability factors go from 0.1 to 0.05.
\<close>

theorem power_collapse_witness:
  "set (succession (powerStructure (court [0, 0, 0, 0]) (agent throne))) \<subseteq> {0}
 \<and> filter (\<lambda>a. isViableClaimant plainMethods (court [0, 0, 0, 0]) a
               (powerStructure (court [0, 0, 0, 0]) a) throne) [1, 2] = []
 \<and> distinct (findAffectedAgents plainMethods (court [0, 0, 0, 0]) throne [1, 2])
 \<and> handleVacuum plainMethods [1, 2] (court [0, 0, 0, 0]) throne
     = handlePowerCollapse plainMethods throne [1, 2] (court [0, 0, 0, 0])
 \<and> uint (leaderPosition (powerStructure (handleVacuum plainMethods [1, 2] (court [0, 0, 0, 0]) throne) 1)) = 1
 \<and> stabilityFactor (powerStructure (handleVacuum plainMethods [1, 2] (court [0, 0, 0, 0]) throne) 1)
     = 0.05
 \<and> stabilityFactor (powerStructure (handleVacuum plainMethods [1, 2] (court [0, 0, 0, 0]) throne) 2)
     = 0.05"
proof -
  let ?w = "court [0, 0, 0, 0]"
  have s: "set (succession (powerStructure ?w (agent throne))) \<subseteq> {0}"
    and c: "filter (\<lambda>a. isViableClaimant plainMethods ?w a (powerStructure ?w a) throne) [1, 2] = []"
    and d: "distinct (findAffectedAgents plainMethods ?w throne [1, 2])"
    by (simp_all add: court_def plainMethods_def)
  have aff: "findAffectedAgents plainMethods ?w throne [1, 2] = [1, 2]"
    by (simp add: plainMethods_def)
  have before: "uint (leaderPosition (powerStructure ?w 1)) = 2"
      "stabilityFactor (powerStructure ?w a) = 0.1" for a
    by (simp_all add: court_def)
  note one = power_collapse [OF s c d keepsRanks_plain, of 1]
  note two = power_collapse [OF s c d keepsRanks_plain, of 2]
  from one have branch: "handleVacuum plainMethods [1, 2] ?w throne
      = handlePowerCollapse plainMethods throne [1, 2] ?w" ..
  from one [THEN conjunct2, THEN conjunct1] have "uint (leaderPosition (powerStructure (handleVacuum plainMethods [1, 2] ?w throne) 1))
      = max 0 (uint (leaderPosition (powerStructure ?w 1)) - 1)"
    unfolding aff by simp
  then have rank: "uint (leaderPosition (powerStructure (handleVacuum plainMethods [1, 2] ?w throne) 1)) = 1"
    unfolding before by simp
  from one [THEN conjunct2, THEN conjunct2] have "stabilityFactor (powerStructure (handleVacuum plainMethods [1, 2] ?w throne) 1)
      = stabilityFactor (powerStructure ?w 1) * 0.5"
    unfolding aff by simp
  then have half1: "stabilityFactor (powerStructure (handleVacuum plainMethods [1, 2] ?w throne) 1) = 0.05"
    unfolding before by simp
  from two [THEN conjunct2, THEN conjunct2] have "stabilityFactor (powerStructure (handleVacuum plainMethods [1, 2] ?w throne) 2)
      = stabilityFactor (powerStructure ?w 2) * 0.5"
    unfolding aff by simp
  then have half2: "stabilityFactor (powerStructure (handleVacuum plainMethods [1, 2] ?w throne) 2) = 0.05"
    unfolding before by simp
  from s c d branch rank half1 half2 show ?thesis by blast
qed

text \<open>
  The claim fails for an affected agent of rank 0: agent 2 is affected by the collapse and
  its rank is 0 before and after, not one less.
\<close>

theorem rank_zero_counterexample:
  "findViableSuccessors plainMethods (court [0, 0, 0, 0]) throne [1, 2] = []
 \<and> findAffectedAgents plainMethods (court [0, 0, 0, 0]) throne [1, 2] = [1, 2]
 \<and> uint (leaderPosition (powerStructure (court [0, 0, 0, 0]) 2)) = 0
 \<and> uint (leaderPosition (powerStructure (handleVacuum plainMethods [1, 2] (court [0, 0, 0, 0]) throne) 2))
     = 0
 \<and> uint (leaderPosition (powerStructure (handleVacuum plainMethods [1, 2] (court [0, 0, 0, 0]) throne) 2))
     \<noteq> uint (leaderPosition (powerStructure (court [0, 0, 0, 0]) 2)) - 1"
  by (simp add: handleVacuum_def handlePowerCollapse_def collapseAgent_def modPower_def
       findViableSuccessors_def designatedCandidates_def claimantCandidates_def
       plainMethods_def court_def throne_def)

section \<open>The two caches\<close>

lemma updateConspiracyStatus_hit:
  assumes "map_of (conspiracyCache w) (a, membershipFlags c) = Some e"
    and "time w - timestamp e < 100"
  shows "updateConspiracyStatus m a c p w = (cached e, w)"
  using assms by (simp add: updateConspiracyStatus_def)

lemma updateConspiracyStatus_miss:
  assumes "staleOrAbsent (conspiracyCache w) (a, membershipFlags c) (time w)"
  shows "updateConspiracyStatus m a c p w =
           (calculateConspiracyStatus m w a c p,
            w\<lparr>conspiracyCache :=
                 AList.update (a, membershipFlags c)
                   \<lparr>cached = calculateConspiracyStatus m w a c p, timestamp = time w\<rparr>
                   (conspiracyCache w),
               statusCalls := statusCalls w + 1\<rparr>)"
  using assms
  by (auto simp add: updateConspiracyStatus_def staleOrAbsent_def Let_def split: option.splits)

lemma findSuitableMarket_hit:
  assumes "map_of (discoveryCache u) (operator, marketAccess underground) = Some e"
    and "time u - timestamp e < 100"
  shows "findSuitableMarket ev operator underground u = (cached e, u)"
  using assms by (simp add: findSuitableMarket_def)

lemma findSuitableMarket_miss:
  assumes "staleOrAbsent (discoveryCache u) (operator, marketAccess underground) (time u)"
  shows "findSuitableMarket ev operator underground u =
           (fst (searchMarkets ev operator underground (activeMarkets u)),
            u\<lparr>discoveryCache :=
                 AList.update (operator, marketAccess underground)
                   \<lparr>cached = fst (searchMarkets ev operator underground (activeMarkets u)),
                    timestamp = time u\<rparr>
                   (discoveryCache u),
               searches := searches u + 1\<rparr>)"
  using assms
  by (auto simp add: findSuitableMarket_def staleOrAbsent_def Let_def split: option.splits)

text \<open>
  Claim C8, as the code has it, for both caches of the source (\<open>updateConspiracyStatus\<close>
  on the state \<open>w\<close>, \<open>findSuitableMarket\<close> on the state \<open>u\<close>). A lookup that finds the key absent, or its
  entry of age 100 ticks or more, runs the computation once (the call counter goes up
  by one), stores the result stamped with the current tick in place of the old entry and
  returns it. A later lookup of the same key, in any state that still holds that entry and
  whose tick is less than 100 after the first, returns the stored value and leaves the
  state as it is: the computation is not run again, whatever it would return now. The two
  lookups together run it exactly once.
\<close>

theorem ttl_cache:
  fixes w w2 :: "'s ConspiracySystem" and u u2 :: UndergroundSystem
  assumes "staleOrAbsent (conspiracyCache w) (a, membershipFlags c) (time w)"
    and "map_of (conspiracyCache w2) (a, membershipFlags c)
           = map_of (conspiracyCache (snd (updateConspiracyStatus m a c p w))) (a, membershipFlags c)"
    and "time w2 - time w < 100"
    and "membershipFlags c2 = membershipFlags c"
    and "staleOrAbsent (discoveryCache u) (operator, marketAccess underground) (time u)"
    and "map_of (discoveryCache u2) (operator, marketAccess underground)
           = map_of (discoveryCache (snd (findSuitableMarket ev operator underground u))) (operator, marketAccess underground)"
    and "time u2 - time u < 100"
    and "marketAccess underground2 = marketAccess underground"
  shows "fst (updateConspiracyStatus m a c p w) = calculateConspiracyStatus m w a c p
       \<and> statusCalls (snd (updateConspiracyStatus m a c p w)) = statusCalls w + 1
       \<and> map_of (conspiracyCache (snd (updateConspiracyStatus m a c p w))) (a, membershipFlags c)
           = Some \<lparr>cached = calculateConspiracyStatus m w a c p, timestamp = time w\<rparr>
       \<and> updateConspiracyStatus m2 a c2 p2 w2 = (calculateConspiracyStatus m w a c p, w2)
       \<and> fst (findSuitableMarket ev operator underground u)
           = fst (searchMarkets ev operator underground (activeMarkets u))
       \<and> searches (snd (findSuitableMarket ev operator underground u)) = searches u + 1
       \<and> map_of (discoveryCache (snd (findSuitableMarket ev operator underground u))) (operator, marketAccess underground)
           = Some \<lparr>cached = fst (searchMarkets ev operator underground (activeMarkets u)),
                   timestamp = time u\<rparr>
       \<and> findSuitableMarket ev2 operator underground2 u2
           = (fst (searchMarkets ev operator underground (activeMarkets u)), u2)"
proof -
  note first = updateConspiracyStatus_miss [OF assms(1), of m p]
  have stored: "map_of (conspiracyCache (snd (updateConspiracyStatus m a c p w))) (a, membershipFlags c)
           = Some \<lparr>cached = calculateConspiracyStatus m w a c p, timestamp = time w\<rparr>"
    by (simp add: first update_conv')
  with assms(2,4) have "map_of (conspiracyCache w2) (a, membershipFlags c2)
           = Some \<lparr>cached = calculateConspiracyStatus m w a c p, timestamp = time w\<rparr>"
    by simp
  from updateConspiracyStatus_hit [OF this, of m2 p2] assms(3)
  have second: "updateConspiracyStatus m2 a c2 p2 w2 = (calculateConspiracyStatus m w a c p, w2)"
    by simp
  note search = findSuitableMarket_miss [OF assms(5), of ev]
  have found: "map_of (discoveryCache (snd (findSuitableMarket ev operator underground u))) (operator, marketAccess underground)
           = Some \<lparr>cached = fst (searchMarkets ev operator underground (activeMarkets u)),
                   timestamp = time u\<rparr>"
    by (simp add: search update_conv')
  with assms(6,8) have "map_of (discoveryCache u2) (operator, marketAccess underground2)
           = Some \<lparr>cached = fst (searchMarkets ev operator underground (activeMarkets u)),
                   timestamp = time u\<rparr>"
    by simp
  from findSuitableMarket_hit [OF this, of ev2] assms(7)
  have again: "findSuitableMarket ev2 operator underground2 u2
           = (fst (searchMarkets ev operator underground (activeMarkets u)), u2)"
    by simp
  from stored second found again show ?thesis
    by (simp add: first search)
qed

text \<open>
  The theorem at the boundary of the lifetime. At tick 100 both caches hold an entry
  stamped at tick 0 (age exactly 100): each lookup recomputes, stores the new value
  stamped 100 and counts one run. At tick 199 (age 99) each lookup returns the stored
  value and changes nothing, although a fresh computation would give 199 for the status
  and no market at all for the emptied market set.
\<close>

theorem ttl_cache_witness:
  "staleOrAbsent (conspiracyCache staleCourt) (1, membershipFlags plainConspiracy) (time staleCourt)
 \<and> staleOrAbsent (discoveryCache staleBazaar) (1, marketAccess dealer) (time staleBazaar)
 \<and> updateConspiracyStatus plainMethods 1 plainConspiracy (powerStructure staleCourt 1) staleCourt
     = (100, staleCourt\<lparr>conspiracyCache := [((1, 0), \<lparr>cached = 100, timestamp = 100\<rparr>)],
                        statusCalls := 1\<rparr>)
 \<and> updateConspiracyStatus plainMethods 1 plainConspiracy (powerStructure staleCourt 1)
       (staleCourt\<lparr>time := 199, conspiracyCache := [((1, 0), \<lparr>cached = 100, timestamp = 100\<rparr>)],
                   statusCalls := 1\<rparr>)
     = (100, staleCourt\<lparr>time := 199,
                        conspiracyCache := [((1, 0), \<lparr>cached = 100, timestamp = 100\<rparr>)],
                        statusCalls := 1\<rparr>)
 \<and> findSuitableMarket marketNumber 1 dealer staleBazaar
     = (Some 5, staleBazaar\<lparr>discoveryCache := [((1, 36), \<lparr>cached = Some 5, timestamp = 100\<rparr>)],
                           searches := 1\<rparr>)
 \<and> findSuitableMarket marketNumber 1 dealer
       (staleBazaar\<lparr>time := 199, activeMarkets := [],
                    discoveryCache := [((1, 36), \<lparr>cached = Some 5, timestamp = 100\<rparr>)],
                    searches := 1\<rparr>)
     = (Some 5, staleBazaar\<lparr>time := 199, activeMarkets := [],
                           discoveryCache := [((1, 36), \<lparr>cached = Some 5, timestamp = 100\<rparr>)],
                           searches := 1\<rparr>)"
proof -
  let ?p = "powerStructure staleCourt 1"
  let ?w2 = "staleCourt\<lparr>time := 199, conspiracyCache := [((1, 0), \<lparr>cached = 100, timestamp = 100\<rparr>)],
                        statusCalls := 1\<rparr>"
  let ?u2 = "staleBazaar\<lparr>time := 199, activeMarkets := [],
                         discoveryCache := [((1, 36), \<lparr>cached = Some 5, timestamp = 100\<rparr>)],
                         searches := 1\<rparr>"
  have stale: "staleOrAbsent (conspiracyCache staleCourt) (1, membershipFlags plainConspiracy) (time staleCourt)"
    by (simp add: staleOrAbsent_def staleCourt_def plainConspiracy_def)
  have first: "updateConspiracyStatus plainMethods 1 plainConspiracy ?p staleCourt
     = (100, staleCourt\<lparr>conspiracyCache := [((1, 0), \<lparr>cached = 100, timestamp = 100\<rparr>)],
                        statusCalls := 1\<rparr>)"
    by (subst updateConspiracyStatus_miss [OF stale])
       (simp add: staleCourt_def court_def plainConspiracy_def plainMethods_def)
  have same: "map_of (conspiracyCache ?w2) (1, membershipFlags plainConspiracy)
      = map_of (conspiracyCache (snd (updateConspiracyStatus plainMethods 1 plainConspiracy ?p staleCourt)))
          (1, membershipFlags plainConspiracy)"
    by (subst first) (simp add: plainConspiracy_def)
  have near: "time ?w2 - time staleCourt < 100"
    by (simp add: staleCourt_def)
  have old: "staleOrAbsent (discoveryCache staleBazaar) (1, marketAccess dealer) (time staleBazaar)"
    by (simp add: staleOrAbsent_def staleBazaar_def dealer_def)
  have best: "fst (searchMarkets marketNumber 1 dealer (activeMarkets staleBazaar)) = Some 5"
    by (simp add: searchMarkets_def staleBazaar_def bazaar_def marketNumber_def shl1_def dealer_def)
  have search: "findSuitableMarket marketNumber 1 dealer staleBazaar
     = (Some 5, staleBazaar\<lparr>discoveryCache := [((1, 36), \<lparr>cached = Some 5, timestamp = 100\<rparr>)],
                           searches := 1\<rparr>)"
    by (subst findSuitableMarket_miss [OF old], subst best, subst best)
       (simp add: staleBazaar_def bazaar_def dealer_def)
  have same': "map_of (discoveryCache ?u2) (1, marketAccess dealer)
      = map_of (discoveryCache (snd (findSuitableMarket marketNumber 1 dealer staleBazaar)))
          (1, marketAccess dealer)"
    by (subst search) (simp add: dealer_def)
  have near': "time ?u2 - time staleBazaar < 100"
    by (simp add: staleBazaar_def)
  note inst = ttl_cache [OF stale same near refl old same' near' refl,
      where ?m2.0 = plainMethods and ?p2.0 = ?p and ?ev2.0 = marketNumber]
  have "calculateConspiracyStatus plainMethods staleCourt 1 plainConspiracy ?p = 100"
    by (simp add: plainMethods_def staleCourt_def)
  with inst [THEN conjunct2, THEN conjunct2, THEN conjunct2, THEN conjunct1]
  have second: "updateConspiracyStatus plainMethods 1 plainConspiracy ?p ?w2 = (100, ?w2)"
    by simp
  from inst [THEN conjunct2, THEN conjunct2, THEN conjunct2, THEN conjunct2,
      THEN conjunct2, THEN conjunct2, THEN conjunct2] best
  have again: "findSuitableMarket marketNumber 1 dealer ?u2 = (Some 5, ?u2)"
    by simp
  from stale old first second search again show ?thesis by blast
qed

text \<open>
  The claim fails for two lookups of which the first does not store. The status cache
  starts empty at tick 0. The lookup at tick 0 misses: it computes the status 0 and stores
  it stamped 0. The lookups at ticks 50 and 60 return the stored 0: these two, 10 ticks
  apart, run the computation not once but never. The lookup at tick 110 finds the entry
  of age 110, computes the status 110 and stores it: the lookups at ticks 60 and 110 are
  50 ticks apart, and the second of them recomputes and returns another value than the
  stored one. The lifetime runs from the tick at which the entry was stored, not from
  the previous lookup.
\<close>

theorem hit_then_stale_counterexample:
  "updateConspiracyStatus plainMethods 1 plainConspiracy (powerStructure (court []) 1) (court [])
     = (0, (court [])\<lparr>conspiracyCache := [((1, 0), \<lparr>cached = 0, timestamp = 0\<rparr>)],
                      statusCalls := 1\<rparr>)
 \<and> updateConspiracyStatus plainMethods 1 plainConspiracy (powerStructure (court []) 1)
       ((court [])\<lparr>time := 50, conspiracyCache := [((1, 0), \<lparr>cached = 0, timestamp = 0\<rparr>)],
                   statusCalls := 1\<rparr>)
     = (0, (court [])\<lparr>time := 50, conspiracyCache := [((1, 0), \<lparr>cached = 0, timestamp = 0\<rparr>)],
                      statusCalls := 1\<rparr>)
 \<and> updateConspiracyStatus plainMethods 1 plainConspiracy (powerStructure (court []) 1)
       ((court [])\<lparr>time := 60, conspiracyCache := [((1, 0), \<lparr>cached = 0, timestamp = 0\<rparr>)],
                   statusCalls := 1\<rparr>)
     = (0, (court [])\<lparr>time := 60, conspiracyCache := [((1, 0), \<lparr>cached = 0, timestamp = 0\<rparr>)],
                      statusCalls := 1\<rparr>)
 \<and> updateConspiracyStatus plainMethods 1 plainConspiracy (powerStructure (court []) 1)
       ((court [])\<lparr>time := 110, conspiracyCache := [((1, 0), \<lparr>cached = 0, timestamp = 0\<rparr>)],
                   statusCalls := 1\<rparr>)
     = (110, (court [])\<lparr>time := 110,
                        conspiracyCache := [((1, 0), \<lparr>cached = 110, timestamp = 110\<rparr>)],
                        statusCalls := 2\<rparr>)
 \<and> (60 :: int) - 50 < 100 \<and> (110 :: int) - 60 < 100"
  by (simp add: updateConspiracyStatus_def court_def plainMethods_def plainConspiracy_def Let_def)

section \<open>The loops at a single entry\<close>

text \<open>
  With one pending conflict \<open>resolveConflicts\<close> is its loop body at that entry, and with
  one vacuum \<open>handlePowerVacuums\<close> is its loop body at that vacuum: what is proved above of
  the bodies is proved of the two methods.
\<close>

lemma resolveConflicts_single:
  assumes "conflictCache w = [entry]"
  shows "resolveConflicts gac w = resolveConflict gac entry w"
proof (cases "resolveConflict gac entry w")
  case None
  with assms show ?thesis by (simp add: resolveConflicts_def)
next
  case (Some r)
  with assms show ?thesis by (cases r) (simp_all add: resolveConflicts_def)
qed

lemma handlePowerVacuums_single:
  "handlePowerVacuums m [v] agents w = handleVacuum m agents w v"
  by (simp add: handlePowerVacuums_def)

end
